theory Spec2Isabelle
  imports Main
begin

section \<open>Data model of the gateway\<close>

text \<open>
  The embedding follows \<^verbatim>\<open>src/features/gateway.ts\<close>. A \<^verbatim>\<open>Client\<close> object is
  identified by the id of its socket (\<^verbatim>\<open>ws["id"]\<close>, a random UUID), and the objects live
  in a store \<open>objs\<close> indexed by that id: the module-level dictionaries and the fields
  \<^verbatim>\<open>listeningWith\<close>/\<^verbatim>\<open>listeningAlong\<close> hold references, which are ids here, so that two
  references to one client see the same fields. JavaScript numbers are integers here
  (timestamps in milliseconds, progress, durations). \<^verbatim>\<open>Date.now()\<close> is the argument
  \<open>now\<close> of every operation that reads the clock.
\<close>

type_synonym client_id = string
type_synonym user_id = string
type_synonym time = int

text \<open>A track, with the fields the catalogue supplies (\<^verbatim>\<open>id, title, artist, icon, url, duration\<close>).\<close>

record track =
  track_id :: string
  title :: string
  artist :: string
  icon :: string
  url :: string
  duration :: int

text \<open>
  A persisted user, with the fields this file reads. A list entry of
  \<^verbatim>\<open>recentlyPlayed\<close> may be \<^verbatim>\<open>null\<close> (the code reads \<^verbatim>\<open>t?.id\<close>), and the list itself
  may be missing (\<^verbatim>\<open>user.recentlyPlayed || []\<close>).
\<close>

record user =
  u_userId :: user_id
  username :: string
  discriminator :: string
  avatar :: string
  accessToken :: string
  presenceToken :: "string option"
  recentlyPlayed :: "track option list option"

record online_user =
  ou_socialStatus :: string
  ou_username :: string
  ou_discriminator :: string
  ou_userId :: user_id
  ou_avatar :: string
  ou_progress :: int
  ou_listeningTo :: "track option"

record offline_user =
  off_socialStatus :: string
  off_username :: string
  off_discriminator :: string
  off_userId :: user_id
  off_avatar :: string
  lastSeen :: time
  lastListeningTo :: "track option"

datatype presence_type = Playing | Listening

record presence =
  p_platform :: string
  p_id :: string
  p_name :: string
  p_type :: presence_type
  p_application_id :: string
  p_details :: string
  p_state :: string
  p_start :: "time option"
  p_end :: time
  p_large_image :: string
  p_large_text :: string
  p_small_image :: string
  p_small_text :: string
  p_buttons :: "(string \<times> string) list"
  p_session_id :: "string option"
  p_party :: "string option"
  p_flags :: "int option"

text \<open>
  The values of \<^verbatim>\<open>app/constants\<close> that the gateway reads; the module is not part of
  the sources, so they are a parameter \<open>K\<close> of the operations that use them.
\<close>

record constants =
  DISCORD_TOKEN :: string
  DISCORD_CLIENT_ID :: string
  DISCORD_ICON :: string
  WEB_TARGET :: string
  CUSTOM_LISTENING :: bool

text \<open>
  Frames sent to a client. The frames built by \<^verbatim>\<open>app/constants\<close> are opaque values;
  the sync and recents frames are built in the gateway itself. The last argument of
  \<open>SyncMessage\<close> is the \<^verbatim>\<open>seek\<close> field, absent in the frame a follower gets when
  its host leaves.
\<close>

datatype frame =
    GATEWAY_INIT
  | GATEWAY_PING int
  | GATEWAY_NOT_INITIALIZED
  | GATEWAY_INVALID_TOKEN
  | GATEWAY_UNKNOWN_MESSAGE
  | INVALID_JSON
  | SUCCESS_fetch
  | SyncMessage "track option" int bool "bool option"
  | RecentsMessage "track option list"

text \<open>
  A decoded inbound frame other than \<^verbatim>\<open>null\<close>: its \<^verbatim>\<open>type\<close> and the fields of the
  handshake frame. \<open>m_type\<close> is the string that the comparison with
  \<^verbatim>\<open>"initialize"\<close> and the lookup in the handler table see, and \<open>None\<close> when the value
  has no \<^verbatim>\<open>type\<close> (an object without the field, a number, a string, an array).
\<close>

record gateway_message =
  m_type :: "string option"
  m_token :: string
  m_broadcast :: "string option"
  m_presence :: "string option"

text \<open>
  What arrives on the socket: text that is not JSON, the JSON text \<^verbatim>\<open>null\<close> (which
  \<^verbatim>\<open>isJson\<close> accepts and \<^verbatim>\<open>JSON.parse\<close> decodes to \<^verbatim>\<open>null\<close>, a value no property can
  be read of), or any other decoded value.
\<close>

datatype raw_data = NotJson | JsonNull | Json gateway_message

text \<open>
  The client. \<open>sent\<close> and \<open>closed\<close> are the socket the client owns: the frames
  passed to \<^verbatim>\<open>socket.send\<close>, each with the time of the call (the \<^verbatim>\<open>timestamp\<close> that
  \<^verbatim>\<open>send\<close> fills in when the payload has none), and whether \<^verbatim>\<open>socket.close\<close> was
  called. \<open>listeningAlong\<close> is a dictionary keyed by the follower's id whose value is
  that follower: its keys, in insertion order.
\<close>

record client =
  hasInitialized :: bool
  userId :: "user_id option"
  lastPing :: time
  startedListening :: "time option"
  listeningTo :: "track option"
  paused :: bool
  progress :: int
  volume :: int
  socialStatus :: string
  presenceMode :: string
  listeningAlong :: "client_id list"
  listeningWith :: "client_id option"
  lastUpdate :: time
  sent :: "(frame \<times> time) list"
  closed :: bool

text \<open>
  The callbacks that \<^verbatim>\<open>initialized\<close> hands to \<^verbatim>\<open>setTimeout(..., 1000)\<close>: the bot
  branch and the user branch, with the variables each closes over.
\<close>

datatype timer =
    BotInit client_id
  | UserInit client_id string "string option" "string option"

text \<open>The argument of the presence publisher: a user record, or (in \<^verbatim>\<open>handleClose\<close>) a user id.\<close>

datatype publish_target = PUser user | PUserId "user_id option"

text \<open>
  The state of the process: the module variables \<^verbatim>\<open>hasBot\<close>, \<^verbatim>\<open>clients\<close> and
  \<^verbatim>\<open>users\<close>, the directories \<^verbatim>\<open>onlineUsers\<close> and \<^verbatim>\<open>recentUsers\<close> of
  \<^verbatim>\<open>features/social\<close>, the store of client objects, the pending timers, and the two
  collaborators: the user collection of \<^verbatim>\<open>features/database\<close> and the calls made to
  the publisher of \<^verbatim>\<open>features/discord\<close>.
\<close>

record gateway =
  hasBot :: bool
  clients :: "client_id set"
  users :: "user_id \<rightharpoonup> client_id list"
  onlineUsers :: "user_id \<rightharpoonup> online_user"
  recentUsers :: "user_id \<rightharpoonup> offline_user"
  objs :: "client_id \<Rightarrow> client"
  timers :: "timer list"
  database :: "user list"
  published :: "(publish_target \<times> presence option) list"

type_synonym handler = "client_id \<Rightarrow> gateway_message \<Rightarrow> time \<Rightarrow> gateway \<Rightarrow> gateway"

section \<open>Collaborators\<close>

text \<open>
  Modelled from the spec: \<^verbatim>\<open>features/database\<close> is not part of the sources. The User
  Directory is a collection of user records; \<^verbatim>\<open>findById(id)\<close> gives the record with
  that user id, and none for the id \<^verbatim>\<open>null\<close>.
\<close>

definition getUser :: "user_id option \<Rightarrow> user list \<Rightarrow> user option" where
  "getUser uid db = (case uid of None \<Rightarrow> None | Some u \<Rightarrow> find (\<lambda>r. u_userId r = u) db)"

text \<open>
  Modelled from the spec: \<^verbatim>\<open>features/database\<close> is not part of the sources.
  \<^verbatim>\<open>findByToken(token)\<close> gives the record with that opaque token.
\<close>

definition getUserByToken :: "string \<Rightarrow> user list \<Rightarrow> user option" where
  "getUserByToken tok db = find (\<lambda>r. accessToken r = tok) db"

text \<open>
  Modelled from the spec: \<^verbatim>\<open>features/database\<close> is not part of the sources.
  \<^verbatim>\<open>update(record)\<close> replaces the stored record that has the record's user id.
\<close>

definition updateUser :: "user \<Rightarrow> user list \<Rightarrow> user list" where
  "updateUser r db = map (\<lambda>x. if u_userId x = u_userId r then r else x) db"

text \<open>
  Modelled from the spec: \<^verbatim>\<open>features/discord\<close> is not part of the sources. The Presence
  Publisher takes \<^verbatim>\<open>publish(user, presenceOrNull)\<close>; each call is recorded.
\<close>

definition publish :: "publish_target \<Rightarrow> presence option \<Rightarrow> gateway \<Rightarrow> gateway" where
  "publish tgt p s = s\<lparr>published := published s @ [(tgt, p)]\<rparr>"

section \<open>Socket utilities\<close>

definition upd :: "client_id \<Rightarrow> (client \<Rightarrow> client) \<Rightarrow> gateway \<Rightarrow> gateway" where
  "upd c f s = s\<lparr>objs := (objs s)(c := f (objs s c))\<rparr>"

definition send :: "client_id \<Rightarrow> frame \<Rightarrow> time \<Rightarrow> gateway \<Rightarrow> gateway" where
  "send this data now s = upd this (\<lambda>c. c\<lparr>sent := sent c @ [(data, now)]\<rparr>) s"

definition disconnect :: "client_id \<Rightarrow> gateway \<Rightarrow> gateway" where
  "disconnect this s = upd this (\<lambda>c. c\<lparr>closed := True\<rparr>) s"

definition ping :: "client_id \<Rightarrow> time \<Rightarrow> gateway \<Rightarrow> gateway" where
  "ping this now s = send this (GATEWAY_PING (now - lastPing (objs s this))) now s"

text \<open>
  \<^verbatim>\<open>new Client(ws)\<close> with its field initialisers, the init frame the constructor sends,
  and the registration in \<^verbatim>\<open>clients\<close>; \<open>cid\<close> is the fresh UUID.
\<close>

definition new_client :: "time \<Rightarrow> client" where
  "new_client now = \<lparr>hasInitialized = False, userId = None, lastPing = now,
     startedListening = None, listeningTo = None, paused = True, progress = 0, volume = 1,
     socialStatus = ''Nobody'', presenceMode = ''None'', listeningAlong = [],
     listeningWith = None, lastUpdate = now, sent = [], closed = False\<rparr>"

definition handleConnection :: "client_id \<Rightarrow> time \<Rightarrow> gateway \<Rightarrow> gateway" where
  "handleConnection cid now s =
     (let s1 = send cid GATEWAY_INIT now (s\<lparr>objs := (objs s)(cid := new_client now)\<rparr>)
      in s1\<lparr>clients := insert cid (clients s1)\<rparr>)"

text \<open>
  The process at start, with the user collection \<open>db\<close>. An id that has not connected
  reads as a client with the initial field values.
\<close>

definition empty_gateway :: "user list \<Rightarrow> gateway" where
  "empty_gateway db = \<lparr>hasBot = False, clients = {}, users = Map.empty,
     onlineUsers = Map.empty, recentUsers = Map.empty, objs = (\<lambda>_. new_client 0),
     timers = [], database = db, published = []\<rparr>"

section \<open>Listen-along\<close>

text \<open>
  \<^verbatim>\<open>client.listeningAlong[this.getId()] = this\<close>: assigning a key that is present keeps
  its place, a new key goes last. \<^verbatim>\<open>delete\<close> removes the key.
\<close>

definition dict_set :: "client_id \<Rightarrow> client_id list \<Rightarrow> client_id list" where
  "dict_set k ks = (if k \<in> set ks then ks else ks @ [k])"

definition dict_delete :: "client_id \<Rightarrow> client_id list \<Rightarrow> client_id list" where
  "dict_delete k ks = removeAll k ks"

definition syncWith :: "client_id \<Rightarrow> bool \<Rightarrow> time \<Rightarrow> gateway \<Rightarrow> gateway" where
  "syncWith this seek now s =
     (case listeningWith (objs s this) of
        None \<Rightarrow> s
      | Some h \<Rightarrow>
          send this (SyncMessage (listeningTo (objs s h)) (progress (objs s h))
                       (paused (objs s h)) (Some seek)) now s)"

definition listenAlong :: "client_id \<Rightarrow> client_id \<Rightarrow> time \<Rightarrow> gateway \<Rightarrow> gateway" where
  "listenAlong this target now s =
     (let s1 = upd target (\<lambda>c. c\<lparr>listeningAlong := dict_set this (listeningAlong c)\<rparr>) s;
          s2 = upd this (\<lambda>c. c\<lparr>listeningWith := Some target\<rparr>) s1
      in syncWith this True now s2)"

definition stopListeningAlong :: "client_id \<Rightarrow> bool \<Rightarrow> time \<Rightarrow> gateway \<Rightarrow> gateway" where
  "stopListeningAlong this host now s =
     (case listeningWith (objs s this) of
        None \<Rightarrow> s
      | Some h \<Rightarrow>
          (let s1 = upd h (\<lambda>c. c\<lparr>listeningAlong := dict_delete this (listeningAlong c)\<rparr>) s;
               s2 = upd this (\<lambda>c. c\<lparr>listeningWith := None\<rparr>) s1
           in if host then send this (SyncMessage None (- 1) True None) now s2 else s2))"

definition updateListeners :: "client_id \<Rightarrow> time \<Rightarrow> gateway \<Rightarrow> gateway" where
  "updateListeners this now s =
     (let listeners = listeningAlong (objs s this)
      in if length listeners < 1 then s
         else fold (\<lambda>listener. syncWith listener True now) listeners s)"

section \<open>Directories, presence and recently played\<close>

definition asOnlineUser :: "client \<Rightarrow> user option \<Rightarrow> online_user option" where
  "asOnlineUser c usr =
     (case usr of
        None \<Rightarrow> None
      | Some r \<Rightarrow> Some \<lparr>ou_socialStatus = socialStatus c, ou_username = username r,
          ou_discriminator = discriminator r, ou_userId = u_userId r, ou_avatar = avatar r,
          ou_progress = progress c, ou_listeningTo = listeningTo c\<rparr>)"

definition asOfflineUser :: "client \<Rightarrow> user option \<Rightarrow> time \<Rightarrow> offline_user option" where
  "asOfflineUser c usr now =
     (case usr of
        None \<Rightarrow> None
      | Some r \<Rightarrow> Some \<lparr>off_socialStatus = socialStatus c, off_username = username r,
          off_discriminator = discriminator r, off_userId = u_userId r, off_avatar = avatar r,
          lastSeen = now, lastListeningTo = listeningTo c\<rparr>)"

text \<open>A \<^verbatim>\<open>null\<close> user id used as a property key is the key \<^verbatim>\<open>"null"\<close>.\<close>

definition key_of :: "user_id option \<Rightarrow> user_id" where
  "key_of uid = (case uid of None \<Rightarrow> ''null'' | Some u \<Rightarrow> u)"

text \<open>
  \<^verbatim>\<open>updateOnlineStatus\<close> creates the entry when there is none and the directory has
  the user, then updates it in place. When the directory has no such user the code
  stores \<^verbatim>\<open>null\<close> under the key, which reads like a missing entry.
\<close>

definition updateOnlineStatus :: "client_id \<Rightarrow> int option \<Rightarrow> gateway \<Rightarrow> gateway" where
  "updateOnlineStatus this sync s =
     (let c = objs s this;
          k = key_of (userId c);
          online = (case onlineUsers s k of
                      Some ou \<Rightarrow> Some ou
                    | None \<Rightarrow> asOnlineUser c (getUser (userId c) (database s)))
      in case online of
           None \<Rightarrow> s
         | Some ou \<Rightarrow>
             s\<lparr>onlineUsers := (onlineUsers s)(k \<mapsto>
                  ou\<lparr>ou_listeningTo := listeningTo c,
                     ou_progress := (case sync of None \<Rightarrow> progress c | Some p \<Rightarrow> p)\<rparr>)\<rparr>)"

text \<open>A string is truthy when it is present and not empty.\<close>

definition truthy :: "string option \<Rightarrow> bool" where
  "truthy x = (case x of None \<Rightarrow> False | Some v \<Rightarrow> v \<noteq> [])"

definition build_presence :: "constants \<Rightarrow> client \<Rightarrow> user \<Rightarrow> track \<Rightarrow> presence" where
  "build_presence K c usr t =
     (let started = (case startedListening c of None \<Rightarrow> 0 | Some st \<Rightarrow> st);
          p = \<lparr>p_platform = ''desktop'', p_id = ''laudiolin'', p_name = ''Laudiolin'',
               p_type = Playing, p_application_id = DISCORD_CLIENT_ID K,
               p_details = ''Listening to '' @ title t, p_state = artist t,
               p_start = startedListening c, p_end = started + duration t * 1000,
               p_large_image = icon t, p_large_text = title t,
               p_small_image = DISCORD_ICON K, p_small_text = ''Laudiolin'',
               p_buttons = [(''Play on Laudiolin'', WEB_TARGET K @ ''/track/'' @ track_id t),
                            (''Listen Along'', WEB_TARGET K @ ''/listen/'' @ u_userId usr)],
               p_session_id = None, p_party = None, p_flags = None\<rparr>
      in if presenceMode c = ''Simple'' then
           (if \<not> CUSTOM_LISTENING K then
              p\<lparr>p_type := Listening, p_id := ''spotify:1'', p_name := ''Spotify'',
                p_details := title t, p_large_text := ''Laudiolin'',
                p_session_id := Some ''4efa609dfa405bb70c0da334220d4a3f'',
                p_party := Some ''spotify:852697865012117544'', p_flags := Some 48\<rparr>
            else p\<lparr>p_type := Listening, p_details := title t\<rparr>)
         else p)"

text \<open>
  \<^verbatim>\<open>updatePresence\<close>. The test and the assignment of \<^verbatim>\<open>lastUpdate\<close> are adjacent
  statements and read the clock as the same \<open>now\<close>; the calls that the method awaits
  (the directory lookup, the publisher) complete before the next event.
\<close>

definition updatePresence :: "constants \<Rightarrow> client_id \<Rightarrow> time \<Rightarrow> gateway \<Rightarrow> gateway" where
  "updatePresence K this now s =
     (if now - lastUpdate (objs s this) < 4000 then s
      else
        (let s1 = upd this (\<lambda>c. c\<lparr>lastUpdate := now\<rparr>) s;
             c = objs s1 this
         in case getUser (userId c) (database s1) of
              None \<Rightarrow> s1
            | Some usr \<Rightarrow>
                if presenceMode c = ''None'' then
                  (if truthy (presenceToken usr) then publish (PUser usr) None s1 else s1)
                else
                  (case listeningTo c of
                     None \<Rightarrow> publish (PUser usr) None s1
                   | Some t \<Rightarrow> publish (PUser usr) (Some (build_presence K c usr t)) s1)))"

text \<open>The presence-relevant events of one session at the clock readings \<open>ts\<close>, in order.\<close>

definition presence_events :: "constants \<Rightarrow> client_id \<Rightarrow> time list \<Rightarrow> gateway \<Rightarrow> gateway" where
  "presence_events K this ts s = fold (\<lambda>now. updatePresence K this now) ts s"

definition broadcast :: "user_id \<Rightarrow> frame \<Rightarrow> time \<Rightarrow> gateway \<Rightarrow> gateway" where
  "broadcast uid payload now s =
     (case users s uid of
        None \<Rightarrow> s
      | Some cs \<Rightarrow> fold (\<lambda>c. send c payload now) cs s)"

text \<open>\<^verbatim>\<open>findIndex\<close> (\<open>None\<close> for \<^verbatim>\<open>-1\<close>) and \<^verbatim>\<open>splice(index, 1)\<close> at a found index.\<close>

fun findIndex :: "('a \<Rightarrow> bool) \<Rightarrow> 'a list \<Rightarrow> nat option" where
  "findIndex p [] = None"
| "findIndex p (x # xs) =
     (if p x then Some 0 else map_option Suc (findIndex p xs))"

definition splice1 :: "nat \<Rightarrow> 'a list \<Rightarrow> 'a list" where
  "splice1 i xs = take i xs @ drop (Suc i) xs"

text \<open>\<^verbatim>\<open>t?.id\<close>: \<^verbatim>\<open>undefined\<close> for a \<^verbatim>\<open>null\<close> entry, and \<^verbatim>\<open>undefined == undefined\<close>.\<close>

definition id_of :: "track option \<Rightarrow> string option" where
  "id_of t = map_option track_id t"

datatype error = TypeError

text \<open>
  The list part of \<^verbatim>\<open>addRecentlyPlayed\<close>: the first entry with the track's id is
  spliced out, the track is put in front, and the first nine entries are kept.
\<close>

definition recents_step :: "track option \<Rightarrow> track option list \<Rightarrow> track option list" where
  "recents_step t stored =
     (let removed = (case findIndex (\<lambda>x. id_of x = id_of t) stored of
                       None \<Rightarrow> stored
                     | Some i \<Rightarrow> splice1 i stored)
      in take 9 (t # removed))"

definition recents_of :: "track option \<Rightarrow> user \<Rightarrow> track option list" where
  "recents_of t usr =
     recents_step t (case recentlyPlayed usr of None \<Rightarrow> [] | Some l \<Rightarrow> l)"

text \<open>
  The list that \<^verbatim>\<open>addRecentlyPlayed\<close> has built from an empty one after the tracks
  \<open>ts\<close> were played, the first of \<open>ts\<close> last.
\<close>

definition played :: "track option list \<Rightarrow> track option list" where
  "played ts = foldr recents_step ts []"

text \<open>
  \<^verbatim>\<open>addRecentlyPlayed\<close>; reading \<^verbatim>\<open>user.recentlyPlayed\<close> of a user that the directory
  does not have throws.
\<close>

definition addRecentlyPlayed ::
    "client_id \<Rightarrow> track option \<Rightarrow> time \<Rightarrow> gateway \<Rightarrow> error + gateway" where
  "addRecentlyPlayed this t now s =
     (case getUser (userId (objs s this)) (database s) of
        None \<Rightarrow> Inl TypeError
      | Some usr \<Rightarrow>
          (let usr' = usr\<lparr>recentlyPlayed := Some (recents_of t usr)\<rparr>;
               s1 = s\<lparr>database := updateUser usr' (database s)\<rparr>
           in Inr (broadcast (key_of (userId (objs s this)))
                     (RecentsMessage (recents_of t usr)) now s1)))"

section \<open>Handshake and dispatch\<close>

text \<open>
  \<^verbatim>\<open>initialized\<close> returns its boolean and the new state. The body of each
  \<^verbatim>\<open>setTimeout\<close> callback is \<open>run_timer\<close>; \<open>fire\<close> runs the oldest pending callback
  (all are set with the same delay). A callback runs to its end without another event
  in between.
\<close>

definition initialized ::
    "constants \<Rightarrow> client_id \<Rightarrow> gateway_message \<Rightarrow> time \<Rightarrow> gateway \<Rightarrow> bool \<times> gateway" where
  "initialized K this data now s =
     (if hasInitialized (objs s this) then (True, s)
      else if m_type data \<noteq> Some ''initialize'' then (False, s)
      else
        (let s1 = upd this (\<lambda>c. c\<lparr>hasInitialized := True\<rparr>) s;
             s2 = ping this now s1;
             t = (if \<not> hasBot s2 \<and> m_token data = DISCORD_TOKEN K then BotInit this
                  else UserInit this (m_token data) (m_broadcast data) (m_presence data))
         in (True, s2\<lparr>timers := timers s2 @ [t]\<rparr>)))"

fun run_timer :: "constants \<Rightarrow> time \<Rightarrow> timer \<Rightarrow> gateway \<Rightarrow> gateway" where
  "run_timer K now (BotInit this) s =
     send this SUCCESS_fetch now
       ((upd this (\<lambda>c. c\<lparr>userId := Some ''bot''\<rparr>) s)\<lparr>hasBot := True\<rparr>)"
| "run_timer K now (UserInit this tok bc pr) s =
     (case getUserByToken tok (database s) of
        Some usr \<Rightarrow>
          (let uid = u_userId usr;
               s1 = upd this (\<lambda>c. c\<lparr>userId := Some uid\<rparr>) s;
               s2 = s1\<lparr>users := (users s1)(uid \<mapsto>
                         (case users s1 uid of None \<Rightarrow> [] | Some cs \<Rightarrow> cs) @ [this])\<rparr>;
               s3 = upd this (\<lambda>c. c\<lparr>
                         socialStatus := (case bc of None \<Rightarrow> ''Everyone'' | Some b \<Rightarrow> b),
                         presenceMode := (case pr of None \<Rightarrow> ''None'' | Some p \<Rightarrow> p)\<rparr>) s2;
               s4 = s3\<lparr>recentUsers := (recentUsers s3)(uid := None)\<rparr>;
               s5 = (case asOnlineUser (objs s4 this) (Some usr) of
                       None \<Rightarrow> s4
                     | Some ou \<Rightarrow> s4\<lparr>onlineUsers := (onlineUsers s4)(uid \<mapsto> ou)\<rparr>)
           in if truthy (presenceToken usr) then updatePresence K this now s5 else s5)
      | None \<Rightarrow> disconnect this (send this GATEWAY_INVALID_TOKEN now s))"

definition fire :: "constants \<Rightarrow> time \<Rightarrow> gateway \<Rightarrow> gateway" where
  "fire K now s =
     (case timers s of
        [] \<Rightarrow> s
      | t # ts \<Rightarrow> run_timer K now t (s\<lparr>timers := ts\<rparr>))"

text \<open>
  The table \<^verbatim>\<open>handlers\<close> is an object literal with seven keys of its own. A lookup
  with any other key goes to \<^verbatim>\<open>Object.prototype\<close>: for one of the property names below
  it gives a value that is truthy and has no \<^verbatim>\<open>default\<close> function, so the call of
  \<^verbatim>\<open>handler.default\<close> throws; for every other key it gives \<^verbatim>\<open>undefined\<close>. The key of
  an absent \<^verbatim>\<open>type\<close> is \<^verbatim>\<open>"undefined"\<close>.
\<close>

definition handler_keys :: "string list" where
  "handler_keys = [''latency'', ''seek'', ''volume'', ''listen'', ''player'',
                   ''load-users'', ''user-update'']"

definition object_prototype_keys :: "string list" where
  "object_prototype_keys = [''constructor'', ''__defineGetter__'', ''__defineSetter__'',
     ''hasOwnProperty'', ''__lookupGetter__'', ''__lookupSetter__'', ''isPrototypeOf'',
     ''propertyIsEnumerable'', ''toString'', ''valueOf'', ''__proto__'', ''toLocaleString'']"

definition type_key :: "string option \<Rightarrow> string" where
  "type_key ty = (case ty of None \<Rightarrow> ''undefined'' | Some k \<Rightarrow> k)"

text \<open>
  \<^verbatim>\<open>handleMessage\<close>. The handler modules (\<^verbatim>\<open>messages/*\<close>) are not part of the sources:
  the handlers \<open>H\<close> behind the seven keys are a parameter. The result is the error
  when the method throws; both throws happen before the method has changed anything.
  For \<^verbatim>\<open>null\<close>, \<^verbatim>\<open>initialized\<close> throws on \<^verbatim>\<open>data.type\<close> when the session has not
  initialized, and \<^verbatim>\<open>handleMessage\<close> throws on \<^verbatim>\<open>json.type\<close> when it has.
\<close>

definition handleMessage ::
    "constants \<Rightarrow> (string \<Rightarrow> handler) \<Rightarrow> client_id \<Rightarrow> raw_data \<Rightarrow> time \<Rightarrow>
     gateway \<Rightarrow> error + gateway" where
  "handleMessage K H this data now s =
     (case data of
        NotJson \<Rightarrow> Inr (disconnect this (send this INVALID_JSON now s))
      | JsonNull \<Rightarrow> Inl TypeError
      | Json json \<Rightarrow>
          (case initialized K this json now s of
             (False, s1) \<Rightarrow> Inr (disconnect this (send this GATEWAY_NOT_INITIALIZED now s1))
           | (True, s1) \<Rightarrow>
               if m_type json = Some ''initialize'' then Inr s1
               else if type_key (m_type json) \<in> set handler_keys
               then Inr (H (type_key (m_type json)) this json now s1)
               else if type_key (m_type json) \<in> set object_prototype_keys
               then Inl TypeError
               else Inr (disconnect this (send this GATEWAY_UNKNOWN_MESSAGE now s1))))"

text \<open>
  The state after the message event: that of the handler, and the state as it was when
  the handler threw.
\<close>

definition deliver ::
    "constants \<Rightarrow> (string \<Rightarrow> handler) \<Rightarrow> client_id \<Rightarrow> raw_data \<Rightarrow> time \<Rightarrow>
     gateway \<Rightarrow> gateway" where
  "deliver K H this data now s =
     (case handleMessage K H this data now s of Inl e \<Rightarrow> s | Inr s' \<Rightarrow> s')"

section \<open>Disconnect\<close>

text \<open>
  \<^verbatim>\<open>users[id].splice(users[id].indexOf(this), 1)\<close>: \<^verbatim>\<open>indexOf\<close> is \<^verbatim>\<open>-1\<close> when the
  client is not in the array, and \<^verbatim>\<open>splice(-1, 1)\<close> removes the last element.
\<close>

definition splice_indexOf :: "client_id \<Rightarrow> client_id list \<Rightarrow> client_id list" where
  "splice_indexOf this cs =
     (case findIndex (\<lambda>x. x = this) cs of
        None \<Rightarrow> butlast cs
      | Some i \<Rightarrow> splice1 i cs)"

text \<open>The first part of \<^verbatim>\<open>handleClose\<close>: the listen-along teardown.\<close>

definition close_listening :: "client_id \<Rightarrow> time \<Rightarrow> gateway \<Rightarrow> gateway" where
  "close_listening this now s =
     (let s1 = (if listeningWith (objs s this) \<noteq> None
                then stopListeningAlong this False now s else s);
          followers = listeningAlong (objs s1 this)
      in if length followers > 0
         then fold (\<lambda>c. stopListeningAlong c True now) followers s1
         else s1)"

text \<open>
  The second part: the registries and directories. The user id is falsy when it is
  \<^verbatim>\<open>null\<close> or empty.
\<close>

definition close_directories :: "client_id \<Rightarrow> time \<Rightarrow> gateway \<Rightarrow> gateway" where
  "close_directories this now s =
     (let c = objs s this;
          s1 = s\<lparr>clients := clients s - {this}\<rparr>
      in case userId c of
           None \<Rightarrow> s1
         | Some uid \<Rightarrow>
             if uid = [] then s1
             else
               (case users s1 uid of
                  None \<Rightarrow> s1
                | Some cs \<Rightarrow>
                    (let s2 = (if recentUsers s1 uid = None \<and> listeningTo c \<noteq> None then
                                 (case asOfflineUser c (getUser (userId c) (database s1)) now of
                                    None \<Rightarrow> s1
                                  | Some off \<Rightarrow>
                                      s1\<lparr>recentUsers := (recentUsers s1)(uid \<mapsto>
                                           off\<lparr>lastSeen := now,
                                               lastListeningTo := listeningTo c\<rparr>)\<rparr>)
                               else s1);
                         s3 = s2\<lparr>onlineUsers := (onlineUsers s2)(uid := None)\<rparr>
                     in if length cs < 2
                        then s3\<lparr>users := (users s3)(uid := None)\<rparr>
                        else s3\<lparr>users := (users s3)(uid \<mapsto> splice_indexOf this cs)\<rparr>)))"

text \<open>
  \<^verbatim>\<open>handleClose\<close>: the teardown, the call that clears the presence of
  \<^verbatim>\<open>this.userId\<close>, then the registries. The handler runs to its end without another
  event in between.
\<close>

definition handleClose :: "client_id \<Rightarrow> time \<Rightarrow> gateway \<Rightarrow> gateway" where
  "handleClose this now s =
     (let s1 = close_listening this now s;
          s2 = publish (PUserId (userId (objs s1 this))) None s1
      in close_directories this now s2)"

section \<open>The properties stated about the gateway\<close>

text \<open>
  The two directions of the listen-along relation: a follower is in the set of the host
  it listens with, and a member of a host's set listens with that host.
\<close>

definition follower_registered :: "gateway \<Rightarrow> bool" where
  "follower_registered s \<longleftrightarrow>
     (\<forall>a b. listeningWith (objs s a) = Some b \<longrightarrow> a \<in> set (listeningAlong (objs s b)))"

definition member_follows :: "gateway \<Rightarrow> bool" where
  "member_follows s \<longleftrightarrow>
     (\<forall>a b. a \<in> set (listeningAlong (objs s b)) \<longrightarrow> listeningWith (objs s a) = Some b)"

definition mutual_inverses :: "gateway \<Rightarrow> bool" where
  "mutual_inverses s \<longleftrightarrow> follower_registered s \<and> member_follows s"

text \<open>A client with its listen-along relations and its socket output blanked.\<close>

definition other_fields :: "client \<Rightarrow> client" where
  "other_fields c = c\<lparr>listeningAlong := [], listeningWith := None, sent := []\<rparr>"

text \<open>A user has an Active session: a registered client that carries its user id.\<close>

definition has_active_session :: "gateway \<Rightarrow> user_id \<Rightarrow> bool" where
  "has_active_session s uid \<longleftrightarrow> (\<exists>c\<in>clients s. userId (objs s c) = Some uid)"

section \<open>Example runs\<close>

definition K0 :: constants where
  "K0 = \<lparr>DISCORD_TOKEN = ''secret'', DISCORD_CLIENT_ID = ''app'', DISCORD_ICON = ''icon'',
         WEB_TARGET = ''web'', CUSTOM_LISTENING = False\<rparr>"

definition alice :: user where
  "alice = \<lparr>u_userId = ''U'', username = ''alice'', discriminator = ''1'', avatar = ''av'',
            accessToken = ''T1'', presenceToken = None, recentlyPlayed = None\<rparr>"

text \<open>The online entry of that user, as the handshake creates it.\<close>

definition alice_online :: online_user where
  "alice_online = \<lparr>ou_socialStatus = ''Everyone'', ou_username = ''alice'',
     ou_discriminator = ''1'', ou_userId = ''U'', ou_avatar = ''av'', ou_progress = 0,
     ou_listeningTo = None\<rparr>"

definition song :: track where
  "song = \<lparr>track_id = ''x'', title = ''t'', artist = ''r'', icon = ''i'', url = ''u'',
           duration = 200\<rparr>"

definition init_msg :: "string \<Rightarrow> gateway_message" where
  "init_msg tok = \<lparr>m_type = Some ''initialize'', m_token = tok, m_broadcast = None,
                   m_presence = Some ''Simple''\<rparr>"

definition player_msg :: gateway_message where
  "player_msg = \<lparr>m_type = Some ''player'', m_token = [], m_broadcast = None,
                 m_presence = None\<rparr>"

text \<open>Handlers that all leave a visible mark (they set the bot flag).\<close>

definition marking_handlers :: "string \<Rightarrow> handler" where
  "marking_handlers ty = (\<lambda>this json now s. s\<lparr>hasBot := True\<rparr>)"

text \<open>Two or three connections, just accepted.\<close>

definition connected2 :: "user list \<Rightarrow> gateway" where
  "connected2 db = handleConnection ''b'' 0 (handleConnection ''a'' 0 (empty_gateway db))"

definition connected3 :: gateway where
  "connected3 = handleConnection ''c'' 0 (connected2 [])"

text \<open>
  Two devices of one user: both connections send the handshake with the user's token,
  then both deferred lookups run.
\<close>

definition two_sessions :: gateway where
  "two_sessions =
     fire K0 2000 (fire K0 2000
       (deliver K0 marking_handlers ''b'' (Json (init_msg ''T1'')) 1000
         (deliver K0 marking_handlers ''a'' (Json (init_msg ''T1'')) 1000
           (connected2 [alice]))))"

text \<open>The same, after session \<open>a\<close> started playing a track.\<close>

definition two_sessions_playing :: gateway where
  "two_sessions_playing = upd ''a'' (\<lambda>c. c\<lparr>listeningTo := Some song\<rparr>) two_sessions"

text \<open>
  One session of a user whose stored list holds two tracks, as
  \<^verbatim>\<open>addRecentlyPlayed\<close> builds it.
\<close>

definition song2 :: track where
  "song2 = \<lparr>track_id = ''y'', title = ''t2'', artist = ''r'', icon = ''i'', url = ''u'',
            duration = 100\<rparr>"

definition alice_played :: user where
  "alice_played = alice\<lparr>recentlyPlayed := Some [Some song2, Some song]\<rparr>"

definition session_played :: gateway where
  "session_played =
     fire K0 2000
       (deliver K0 marking_handlers ''a'' (Json (init_msg ''T1'')) 1000
         (connected2 [alice_played]))"

text \<open>
  Two connections that both send the handshake with the bot's secret before either
  deferred callback has run, then both callbacks run.
\<close>

definition two_bots :: gateway where
  "two_bots =
     fire K0 2000 (fire K0 2000
       (deliver K0 marking_handlers ''b'' (Json (init_msg ''secret'')) 1000
         (deliver K0 marking_handlers ''a'' (Json (init_msg ''secret'')) 1000
           (connected2 []))))"

text \<open>A follower \<open>c\<close> that listens along with \<open>a\<close>, and then with \<open>b\<close>.\<close>

definition following_a :: gateway where
  "following_a = listenAlong ''c'' ''a'' 1 connected3"

definition switched_to_b :: gateway where
  "switched_to_b = listenAlong ''c'' ''b'' 2 following_a"

text \<open>The same follower after it stopped listening along: it is left in the set of \<open>a\<close>.\<close>

definition stopped_after_switch :: gateway where
  "stopped_after_switch = stopListeningAlong ''c'' False 3 switched_to_b"

section \<open>Basic facts\<close>

lemma upd_fields [simp]:
  "objs (upd c f s) = (objs s)(c := f (objs s c))"
  "hasBot (upd c f s) = hasBot s"
  "clients (upd c f s) = clients s"
  "users (upd c f s) = users s"
  "onlineUsers (upd c f s) = onlineUsers s"
  "recentUsers (upd c f s) = recentUsers s"
  "timers (upd c f s) = timers s"
  "database (upd c f s) = database s"
  "published (upd c f s) = published s"
  by (simp_all add: upd_def)

lemma connected2_a:
  "objs (connected2 db) ''a'' = (new_client 0)\<lparr>sent := [(GATEWAY_INIT, 0)]\<rparr>"
  by (simp add: connected2_def handleConnection_def send_def empty_gateway_def Let_def
        new_client_def)

lemma connected2_b:
  "objs (connected2 db) ''b'' = (new_client 0)\<lparr>sent := [(GATEWAY_INIT, 0)]\<rparr>"
  by (simp add: connected2_def handleConnection_def send_def empty_gateway_def Let_def
        new_client_def)

section \<open>The example runs, evaluated\<close>

lemma connected2_eq:
  "connected2 db = \<lparr>hasBot = False, clients = {''a'', ''b''}, users = Map.empty,
     onlineUsers = Map.empty, recentUsers = Map.empty,
     objs = (\<lambda>_. new_client 0)
       (''a'' := (new_client 0)\<lparr>sent := [(GATEWAY_INIT, 0)]\<rparr>,
        ''b'' := (new_client 0)\<lparr>sent := [(GATEWAY_INIT, 0)]\<rparr>),
     timers = [], database = db, published = []\<rparr>"
  by (auto simp: connected2_def handleConnection_def send_def empty_gateway_def
        Let_def new_client_def upd_def)

lemma two_sessions_eq:
  "two_sessions = \<lparr>hasBot = False, clients = {''a'', ''b''},
     users = [''U'' \<mapsto> [''a'', ''b'']],
     onlineUsers = [''U'' \<mapsto> alice_online], recentUsers = Map.empty,
     objs = (\<lambda>_. new_client 0)
       (''a'' := (new_client 0)\<lparr>hasInitialized := True, userId := Some ''U'',
                   socialStatus := ''Everyone'', presenceMode := ''Simple'',
                   sent := [(GATEWAY_INIT, 0), (GATEWAY_PING 1000, 1000)]\<rparr>,
        ''b'' := (new_client 0)\<lparr>hasInitialized := True, userId := Some ''U'',
                   socialStatus := ''Everyone'', presenceMode := ''Simple'',
                   sent := [(GATEWAY_INIT, 0), (GATEWAY_PING 1000, 1000)]\<rparr>),
     timers = [], database = [alice], published = []\<rparr>"
  by (simp add: two_sessions_def connected2_eq deliver_def handleMessage_def initialized_def ping_def
        send_def upd_def fire_def getUserByToken_def alice_def init_msg_def K0_def
        asOnlineUser_def truthy_def alice_online_def new_client_def Let_def fun_upd_twist)

lemma two_sessions_playing_eq:
  "two_sessions_playing = \<lparr>hasBot = False, clients = {''a'', ''b''},
     users = [''U'' \<mapsto> [''a'', ''b'']],
     onlineUsers = [''U'' \<mapsto> alice_online], recentUsers = Map.empty,
     objs = (\<lambda>_. new_client 0)
       (''a'' := (new_client 0)\<lparr>hasInitialized := True, userId := Some ''U'',
                   listeningTo := Some song,
                   socialStatus := ''Everyone'', presenceMode := ''Simple'',
                   sent := [(GATEWAY_INIT, 0), (GATEWAY_PING 1000, 1000)]\<rparr>,
        ''b'' := (new_client 0)\<lparr>hasInitialized := True, userId := Some ''U'',
                   socialStatus := ''Everyone'', presenceMode := ''Simple'',
                   sent := [(GATEWAY_INIT, 0), (GATEWAY_PING 1000, 1000)]\<rparr>),
     timers = [], database = [alice], published = []\<rparr>"
  by (simp add: two_sessions_playing_def two_sessions_eq upd_def new_client_def fun_upd_twist)

lemma session_played_eq:
  "session_played = \<lparr>hasBot = False, clients = {''a'', ''b''},
     users = [''U'' \<mapsto> [''a'']],
     onlineUsers = [''U'' \<mapsto> alice_online], recentUsers = Map.empty,
     objs = (\<lambda>_. new_client 0)
       (''a'' := (new_client 0)\<lparr>hasInitialized := True, userId := Some ''U'',
                   socialStatus := ''Everyone'', presenceMode := ''Simple'',
                   sent := [(GATEWAY_INIT, 0), (GATEWAY_PING 1000, 1000)]\<rparr>,
        ''b'' := (new_client 0)\<lparr>sent := [(GATEWAY_INIT, 0)]\<rparr>),
     timers = [], database = [alice_played], published = []\<rparr>"
  by (simp add: session_played_def connected2_eq deliver_def handleMessage_def initialized_def ping_def
        send_def upd_def fire_def getUserByToken_def alice_def alice_played_def init_msg_def
        K0_def asOnlineUser_def truthy_def alice_online_def new_client_def Let_def
        fun_upd_twist)

lemma two_bots_eq:
  "two_bots = \<lparr>hasBot = True, clients = {''a'', ''b''}, users = Map.empty,
     onlineUsers = Map.empty, recentUsers = Map.empty,
     objs = (\<lambda>_. new_client 0)
       (''a'' := (new_client 0)\<lparr>hasInitialized := True, userId := Some ''bot'',
                   sent := [(GATEWAY_INIT, 0), (GATEWAY_PING 1000, 1000),
                            (SUCCESS_fetch, 2000)]\<rparr>,
        ''b'' := (new_client 0)\<lparr>hasInitialized := True, userId := Some ''bot'',
                   sent := [(GATEWAY_INIT, 0), (GATEWAY_PING 1000, 1000),
                            (SUCCESS_fetch, 2000)]\<rparr>),
     timers = [], database = [], published = []\<rparr>"
  by (simp add: two_bots_def connected2_eq deliver_def handleMessage_def initialized_def ping_def
        send_def upd_def fire_def init_msg_def K0_def new_client_def Let_def fun_upd_twist)

section \<open>Frames before the handshake\<close>

lemma initialized_reject:
  "\<not> hasInitialized (objs s this) \<Longrightarrow> m_type json \<noteq> Some ''initialize'' \<Longrightarrow>
   initialized K this json now s = (False, s)"
  by (simp add: initialized_def)

text \<open>
  Every decoded value other than \<^verbatim>\<open>null\<close> whose type is not \<^verbatim>\<open>initialize\<close>: a session
  that has not initialized gets exactly one not-initialized error frame and is closed,
  whatever the handlers are, so no handler runs.
\<close>

lemma handleMessage_rejects_before_handshake:
  assumes "\<not> hasInitialized (objs s this)" and "m_type json \<noteq> Some ''initialize''"
  shows "handleMessage K H this (Json json) now s =
           Inr (disconnect this (send this GATEWAY_NOT_INITIALIZED now s))"
  using assms by (simp add: handleMessage_def initialized_reject)

lemma handleMessage_null_throws: "handleMessage K H this JsonNull now s = Inl TypeError"
  by (simp add: handleMessage_def)

text \<open>
  C1 fails on the code for the frame \<^verbatim>\<open>null\<close>. It is valid JSON and its type is not the
  handshake type, yet on a session that has not initialized the method throws: no
  not-initialized frame is sent (the output still holds the init frame alone) and the
  socket is not closed.
\<close>

theorem null_frame_before_handshake:
  "\<not> hasInitialized (objs (connected2 []) ''a'')
   \<and> handleMessage K0 marking_handlers ''a'' JsonNull 5 (connected2 []) = Inl TypeError
   \<and> sent (objs (deliver K0 marking_handlers ''a'' JsonNull 5 (connected2 [])) ''a'') =
       [(GATEWAY_INIT, 0)]
   \<and> \<not> closed (objs (deliver K0 marking_handlers ''a'' JsonNull 5 (connected2 [])) ''a'')"
  by (simp add: handleMessage_def deliver_def connected2_a new_client_def)

section \<open>Listen-along teardown and the two relations\<close>

lemma stop_keeps [simp]:
  "hasBot (stopListeningAlong c host now s) = hasBot s"
  "clients (stopListeningAlong c host now s) = clients s"
  "users (stopListeningAlong c host now s) = users s"
  "onlineUsers (stopListeningAlong c host now s) = onlineUsers s"
  "recentUsers (stopListeningAlong c host now s) = recentUsers s"
  "timers (stopListeningAlong c host now s) = timers s"
  "database (stopListeningAlong c host now s) = database s"
  "published (stopListeningAlong c host now s) = published s"
  by (simp_all add: stopListeningAlong_def send_def Let_def split: option.splits)

text \<open>What one \<^verbatim>\<open>stopListeningAlong\<close> does to the three fields of every client.\<close>

lemma stop_listeningWith:
  "listeningWith (objs (stopListeningAlong f host now s) x) =
     (if x = f then None else listeningWith (objs s x))"
  by (auto simp: stopListeningAlong_def send_def Let_def split: option.splits)

lemma stop_sent:
  "sent (objs (stopListeningAlong f host now s) x) =
     sent (objs s x) @
       (if x = f \<and> host \<and> listeningWith (objs s f) \<noteq> None
        then [(SyncMessage None (- 1) True None, now)] else [])"
  by (auto simp: stopListeningAlong_def send_def Let_def split: option.splits)

lemma stop_listeningAlong:
  "listeningAlong (objs (stopListeningAlong f host now s) x) =
     (if listeningWith (objs s f) = Some x
      then removeAll f (listeningAlong (objs s x)) else listeningAlong (objs s x))"
  by (auto simp: stopListeningAlong_def send_def dict_delete_def Let_def split: option.splits)

text \<open>
  The loop of \<^verbatim>\<open>handleClose\<close> over the members of a set: every member ends without
  a host, a member that had a host gets the frame and leaves the set of that host.
\<close>

lemma fold_stop_listeningWith:
  "listeningWith (objs (fold (\<lambda>c. stopListeningAlong c host now) fs s) x) =
     (if x \<in> set fs then None else listeningWith (objs s x))"
  by (induction fs arbitrary: s) (simp_all add: stop_listeningWith)

lemma fold_stop_sent:
  "sent (objs (fold (\<lambda>c. stopListeningAlong c True now) fs s) x) =
     sent (objs s x) @
       (if x \<in> set fs \<and> listeningWith (objs s x) \<noteq> None
        then [(SyncMessage None (- 1) True None, now)] else [])"
  by (induction fs arbitrary: s) (simp_all add: stop_listeningWith stop_sent)

lemma fold_stop_listeningAlong:
  "listeningAlong (objs (fold (\<lambda>c. stopListeningAlong c host now) fs s) x) =
     filter (\<lambda>f. \<not> (f \<in> set fs \<and> listeningWith (objs s f) = Some x))
       (listeningAlong (objs s x))"
proof (induction fs arbitrary: s)
  case Nil
  show ?case by simp
next
  case (Cons g fs)
  let ?s1 = "stopListeningAlong g host now s"
  have "listeningAlong (objs (fold (\<lambda>c. stopListeningAlong c host now) (g # fs) s) x) =
        filter (\<lambda>f. \<not> (f \<in> set fs \<and> listeningWith (objs ?s1 f) = Some x))
          (listeningAlong (objs ?s1 x))"
    using Cons.IH [of ?s1] by simp
  also have "\<dots> = filter (\<lambda>f. \<not> (f \<in> set fs \<and> f \<noteq> g \<and> listeningWith (objs s f) = Some x))
          (listeningAlong (objs ?s1 x))"
    by (intro filter_cong refl) (auto simp: stop_listeningWith)
  also have "\<dots> = filter (\<lambda>f. \<not> (f \<in> set (g # fs) \<and> listeningWith (objs s f) = Some x))
          (listeningAlong (objs s x))"
  proof (cases "listeningWith (objs s g) = Some x")
    case True
    then have eq: "listeningAlong (objs ?s1 x) =
                 filter (\<lambda>f. g \<noteq> f) (listeningAlong (objs s x))"
      by (simp add: stop_listeningAlong removeAll_filter_not_eq)
    show ?thesis
      unfolding eq filter_filter using True by (intro filter_cong refl) auto
  next
    case False
    then have eq: "listeningAlong (objs ?s1 x) = listeningAlong (objs s x)"
      by (simp add: stop_listeningAlong)
    show ?thesis
      unfolding eq using False by (intro filter_cong refl) auto
  qed
  finally show ?case .
qed

lemma close_listening_fold:
  "close_listening this now s =
     fold (\<lambda>c. stopListeningAlong c True now)
       (listeningAlong (objs (if listeningWith (objs s this) \<noteq> None
                              then stopListeningAlong this False now s else s) this))
       (if listeningWith (objs s this) \<noteq> None then stopListeningAlong this False now s else s)"
  by (cases "listeningAlong (objs (if listeningWith (objs s this) \<noteq> None
                              then stopListeningAlong this False now s else s) this)")
     (simp_all add: close_listening_def Let_def)

lemma handleClose_objs: "objs (handleClose this now s) = objs (close_listening this now s)"
  by (simp add: handleClose_def close_directories_def publish_def Let_def
           split: option.splits)

lemma connected3_objs:
  "objs connected3 = (\<lambda>_. new_client 0)
      (''a'' := (new_client 0)\<lparr>sent := [(GATEWAY_INIT, 0)]\<rparr>,
       ''b'' := (new_client 0)\<lparr>sent := [(GATEWAY_INIT, 0)]\<rparr>,
       ''c'' := (new_client 0)\<lparr>sent := [(GATEWAY_INIT, 0)]\<rparr>)"
  by (simp add: connected3_def connected2_def handleConnection_def send_def empty_gateway_def
        Let_def new_client_def)

lemma following_a_objs:
  "objs following_a = (\<lambda>_. new_client 0)
      (''a'' := (new_client 0)\<lparr>sent := [(GATEWAY_INIT, 0)], listeningAlong := [''c'']\<rparr>,
       ''b'' := (new_client 0)\<lparr>sent := [(GATEWAY_INIT, 0)]\<rparr>,
       ''c'' := (new_client 0)\<lparr>
                  sent := [(GATEWAY_INIT, 0), (SyncMessage None 0 True (Some True), 1)],
                  listeningWith := Some ''a''\<rparr>)"
  by (simp add: following_a_def listenAlong_def syncWith_def send_def dict_set_def Let_def
        connected3_objs fun_upd_twist new_client_def)

lemma switched_to_b_objs:
  "objs switched_to_b = (\<lambda>_. new_client 0)
      (''a'' := (new_client 0)\<lparr>sent := [(GATEWAY_INIT, 0)], listeningAlong := [''c'']\<rparr>,
       ''b'' := (new_client 0)\<lparr>sent := [(GATEWAY_INIT, 0)], listeningAlong := [''c'']\<rparr>,
       ''c'' := (new_client 0)\<lparr>
                  sent := [(GATEWAY_INIT, 0), (SyncMessage None 0 True (Some True), 1),
                           (SyncMessage None 0 True (Some True), 2)],
                  listeningWith := Some ''b''\<rparr>)"
  by (simp add: switched_to_b_def listenAlong_def syncWith_def send_def dict_set_def Let_def
        following_a_objs fun_upd_twist new_client_def)

lemma following_a_mutual: "mutual_inverses following_a"
  by (auto simp: mutual_inverses_def follower_registered_def member_follows_def
        following_a_objs new_client_def split: if_splits)

text \<open>The listen-along teardown of \<^verbatim>\<open>handleClose\<close>, field by field.\<close>

lemma close_listening_listeningWith:
  "listeningWith (objs (close_listening this now s) x) =
     (if x = this \<or> x \<in> set (listeningAlong (objs s this)) then None
      else listeningWith (objs s x))"
proof -
  define s1 where
    "s1 = (if listeningWith (objs s this) \<noteq> None
           then stopListeningAlong this False now s else s)"
  have lw1: "listeningWith (objs s1 y) = (if y = this then None else listeningWith (objs s y))"
    for y
    unfolding s1_def by (auto simp: stop_listeningWith)
  have fs: "set (listeningAlong (objs s1 this)) \<union> {this} =
            set (listeningAlong (objs s this)) \<union> {this}"
    unfolding s1_def by (auto simp: stop_listeningAlong)
  have "listeningWith (objs (close_listening this now s) x) =
        (if x \<in> set (listeningAlong (objs s1 this)) then None
         else listeningWith (objs s1 x))"
    unfolding close_listening_fold s1_def [symmetric] by (rule fold_stop_listeningWith)
  then show ?thesis
    using fs by (auto simp: lw1)
qed

lemma close_listening_sent:
  "sent (objs (close_listening this now s) x) =
     sent (objs s x) @
       (if x \<in> set (listeningAlong (objs s this)) \<and> x \<noteq> this \<and>
           listeningWith (objs s x) \<noteq> None
        then [(SyncMessage None (- 1) True None, now)] else [])"
proof -
  define s1 where
    "s1 = (if listeningWith (objs s this) \<noteq> None
           then stopListeningAlong this False now s else s)"
  have lw1: "listeningWith (objs s1 y) = (if y = this then None else listeningWith (objs s y))"
    for y
    unfolding s1_def by (auto simp: stop_listeningWith)
  have sent1: "sent (objs s1 y) = sent (objs s y)" for y
    unfolding s1_def by (simp add: stop_sent)
  have fs: "set (listeningAlong (objs s1 this)) \<union> {this} =
            set (listeningAlong (objs s this)) \<union> {this}"
    unfolding s1_def by (auto simp: stop_listeningAlong)
  have "sent (objs (close_listening this now s) x) =
        sent (objs s1 x) @
          (if x \<in> set (listeningAlong (objs s1 this)) \<and> listeningWith (objs s1 x) \<noteq> None
           then [(SyncMessage None (- 1) True None, now)] else [])"
    unfolding close_listening_fold s1_def [symmetric] by (rule fold_stop_sent)
  then show ?thesis
    using fs by (auto simp: lw1 sent1)
qed

lemma close_listening_listeningAlong:
  "listeningAlong (objs (close_listening this now s) x) =
     filter (\<lambda>f. \<not> ((f = this \<or> f \<in> set (listeningAlong (objs s this))) \<and>
                     listeningWith (objs s f) = Some x))
       (listeningAlong (objs s x))"
proof -
  define s1 where
    "s1 = (if listeningWith (objs s this) \<noteq> None
           then stopListeningAlong this False now s else s)"
  have lw1: "listeningWith (objs s1 y) = (if y = this then None else listeningWith (objs s y))"
    for y
    unfolding s1_def by (auto simp: stop_listeningWith)
  have la1: "listeningAlong (objs s1 y) =
               (if listeningWith (objs s this) = Some y
                then filter (\<lambda>f. this \<noteq> f) (listeningAlong (objs s y))
                else listeningAlong (objs s y))" for y
    unfolding s1_def by (auto simp: stop_listeningAlong removeAll_filter_not_eq)
  have fs: "set (listeningAlong (objs s1 this)) \<union> {this} =
            set (listeningAlong (objs s this)) \<union> {this}"
    unfolding la1 by auto
  have "listeningAlong (objs (close_listening this now s) x) =
        filter (\<lambda>f. \<not> (f \<in> set (listeningAlong (objs s1 this)) \<and>
                        listeningWith (objs s1 f) = Some x))
          (listeningAlong (objs s1 x))"
    unfolding close_listening_fold s1_def [symmetric] by (rule fold_stop_listeningAlong)
  also have "\<dots> =
        filter (\<lambda>f. \<not> (f \<noteq> this \<and> f \<in> set (listeningAlong (objs s this)) \<and>
                        listeningWith (objs s f) = Some x))
          (listeningAlong (objs s1 x))"
    using fs by (intro filter_cong refl) (auto simp: lw1)
  also have "\<dots> =
     filter (\<lambda>f. \<not> ((f = this \<or> f \<in> set (listeningAlong (objs s this))) \<and>
                     listeningWith (objs s f) = Some x))
       (listeningAlong (objs s x))"
  proof (cases "listeningWith (objs s this) = Some x")
    case True
    then have eq: "listeningAlong (objs s1 x) =
                     filter (\<lambda>f. this \<noteq> f) (listeningAlong (objs s x))"
      by (simp add: la1)
    show ?thesis
      unfolding eq filter_filter using True by (intro filter_cong refl) auto
  next
    case False
    then have eq: "listeningAlong (objs s1 x) = listeningAlong (objs s x)"
      by (simp add: la1)
    show ?thesis
      unfolding eq using False by (intro filter_cong refl) auto
  qed
  finally show ?thesis .
qed

text \<open>
  C3, as the code has it. When a host closes, every member of its \<^verbatim>\<open>listeningAlong\<close>
  set ends without a \<^verbatim>\<open>listeningWith\<close> reference; the sessions that receive a frame are
  the members other than the host itself that had a \<^verbatim>\<open>listeningWith\<close> reference, and
  each receives exactly one sync frame with \<^verbatim>\<open>track = null, progress = -1, paused = true\<close>;
  the host's set keeps exactly the members that did not listen with the host, so it is
  empty when every member listened with it.
\<close>

theorem host_close_tears_down_group:
  "(\<forall>f\<in>set (listeningAlong (objs s h)). listeningWith (objs (handleClose h now s) f) = None)
 \<and> (\<forall>x. sent (objs (handleClose h now s) x) =
        sent (objs s x) @
          (if x \<in> set (listeningAlong (objs s h)) \<and> x \<noteq> h \<and>
              listeningWith (objs s x) \<noteq> None
           then [(SyncMessage None (- 1) True None, now)] else []))
 \<and> listeningAlong (objs (handleClose h now s) h) =
      filter (\<lambda>f. listeningWith (objs s f) \<noteq> Some h) (listeningAlong (objs s h))
 \<and> ((\<forall>f\<in>set (listeningAlong (objs s h)). listeningWith (objs s f) = Some h) \<longrightarrow>
      listeningAlong (objs (handleClose h now s) h) = [])"
proof -
  have a: "\<forall>f\<in>set (listeningAlong (objs s h)).
             listeningWith (objs (handleClose h now s) f) = None"
    by (simp add: handleClose_objs close_listening_listeningWith)
  have b: "\<forall>x. sent (objs (handleClose h now s) x) =
        sent (objs s x) @
          (if x \<in> set (listeningAlong (objs s h)) \<and> x \<noteq> h \<and>
              listeningWith (objs s x) \<noteq> None
           then [(SyncMessage None (- 1) True None, now)] else [])"
    unfolding handleClose_objs close_listening_sent by (rule allI) (rule refl)
  have c: "listeningAlong (objs (handleClose h now s) h) =
      filter (\<lambda>f. listeningWith (objs s f) \<noteq> Some h) (listeningAlong (objs s h))"
    unfolding handleClose_objs close_listening_listeningAlong
    by (intro filter_cong refl) auto
  have d: "listeningAlong (objs (handleClose h now s) h) = []"
    if "\<forall>f\<in>set (listeningAlong (objs s h)). listeningWith (objs s f) = Some h"
    unfolding c using that by (simp add: filter_empty_conv)
  from a b c d show ?thesis by blast
qed

theorem host_close_tears_down_group_witness:
  "listeningAlong (objs following_a ''a'') = [''c'']
   \<and> listeningWith (objs following_a ''c'') = Some ''a''
   \<and> listeningWith (objs (handleClose ''a'' 3 following_a) ''c'') = None
   \<and> sent (objs (handleClose ''a'' 3 following_a) ''c'') =
       [(GATEWAY_INIT, 0), (SyncMessage None 0 True (Some True), 1),
        (SyncMessage None (- 1) True None, 3)]
   \<and> sent (objs (handleClose ''a'' 3 following_a) ''b'') = [(GATEWAY_INIT, 0)]
   \<and> listeningAlong (objs (handleClose ''a'' 3 following_a) ''a'') = []"
proof -
  have la: "listeningAlong (objs following_a ''a'') = [''c'']"
    and lw: "listeningWith (objs following_a ''c'') = Some ''a''"
    and sc: "sent (objs following_a ''c'') =
       [(GATEWAY_INIT, 0), (SyncMessage None 0 True (Some True), 1)]"
    and sb: "sent (objs following_a ''b'') = [(GATEWAY_INIT, 0)]"
    by (simp_all add: following_a_objs)
  note t = host_close_tears_down_group [of following_a "''a''" 3]
  from t have 1: "listeningWith (objs (handleClose ''a'' 3 following_a) ''c'') = None"
    unfolding la by simp
  from t have s: "\<forall>x. sent (objs (handleClose ''a'' 3 following_a) x) =
        sent (objs following_a x) @
          (if x \<in> set (listeningAlong (objs following_a ''a'')) \<and> x \<noteq> ''a'' \<and>
              listeningWith (objs following_a x) \<noteq> None
           then [(SyncMessage None (- 1) True None, 3)] else [])"
    by blast
  have 2: "sent (objs (handleClose ''a'' 3 following_a) ''c'') =
       [(GATEWAY_INIT, 0), (SyncMessage None 0 True (Some True), 1),
        (SyncMessage None (- 1) True None, 3)]"
    unfolding s [rule_format] la lw sc by simp
  have 3: "sent (objs (handleClose ''a'' 3 following_a) ''b'') = [(GATEWAY_INIT, 0)]"
    unfolding s [rule_format] la sb by simp
  from t have "(\<forall>f\<in>set (listeningAlong (objs following_a ''a'')).
                  listeningWith (objs following_a f) = Some ''a'') \<longrightarrow>
               listeningAlong (objs (handleClose ''a'' 3 following_a) ''a'') = []"
    by blast
  then have 4: "listeningAlong (objs (handleClose ''a'' 3 following_a) ''a'') = []"
    unfolding la using lw by simp
  from la lw 1 2 3 4 show ?thesis by (intro conjI)
qed

lemma stopped_after_switch_objs:
  "objs stopped_after_switch = (\<lambda>_. new_client 0)
      (''a'' := (new_client 0)\<lparr>sent := [(GATEWAY_INIT, 0)], listeningAlong := [''c'']\<rparr>,
       ''b'' := (new_client 0)\<lparr>sent := [(GATEWAY_INIT, 0)]\<rparr>,
       ''c'' := (new_client 0)\<lparr>
                  sent := [(GATEWAY_INIT, 0), (SyncMessage None 0 True (Some True), 1),
                           (SyncMessage None 0 True (Some True), 2)]\<rparr>)"
  by (simp add: stopped_after_switch_def stopListeningAlong_def dict_delete_def Let_def
        switched_to_b_objs fun_upd_twist new_client_def)

text \<open>
  C3 as stated fails when the set has a member that does not listen with the host.
  After the follower \<open>c\<close> went from host \<open>a\<close> to host \<open>b\<close>, the close of \<open>a\<close> leaves
  \<open>c\<close> in the set of \<open>a\<close>, which is not empty afterwards. After \<open>c\<close> then stopped
  listening along, it is still a member of the set of \<open>a\<close>, and the close of \<open>a\<close>
  sends it no frame.
\<close>

theorem host_close_stale_member_counterexample:
  "listeningAlong (objs switched_to_b ''a'') = [''c'']
   \<and> listeningAlong (objs (handleClose ''a'' 3 switched_to_b) ''a'') \<noteq> []
   \<and> listeningAlong (objs stopped_after_switch ''a'') = [''c'']
   \<and> sent (objs (handleClose ''a'' 4 stopped_after_switch) ''c'') =
       sent (objs stopped_after_switch ''c'')
   \<and> listeningAlong (objs (handleClose ''a'' 4 stopped_after_switch) ''a'') \<noteq> []"
proof -
  have 1: "listeningAlong (objs switched_to_b ''a'') = [''c'']
   \<and> listeningAlong (objs (handleClose ''a'' 3 switched_to_b) ''a'') \<noteq> []"
    by (simp add: handleClose_objs close_listening_def stopListeningAlong_def send_def
        dict_delete_def Let_def switched_to_b_objs new_client_def)
  have 2: "listeningAlong (objs stopped_after_switch ''a'') = [''c'']
   \<and> sent (objs (handleClose ''a'' 4 stopped_after_switch) ''c'') =
       sent (objs stopped_after_switch ''c'')
   \<and> listeningAlong (objs (handleClose ''a'' 4 stopped_after_switch) ''a'') \<noteq> []"
    by (simp add: handleClose_objs close_listening_def stopListeningAlong_def send_def
        dict_delete_def Let_def stopped_after_switch_objs new_client_def)
  from 1 2 show ?thesis by simp
qed

lemma stop_follower_registered:
  "follower_registered s \<Longrightarrow> follower_registered (stopListeningAlong c host now s)"
  by (auto simp: follower_registered_def stopListeningAlong_def send_def dict_delete_def Let_def
           split: option.splits)

lemma stop_member_follows:
  "member_follows s \<Longrightarrow> member_follows (stopListeningAlong c host now s)"
  by (auto simp: member_follows_def stopListeningAlong_def send_def dict_delete_def Let_def
           split: option.splits if_splits)

lemma fold_stop_follower_registered:
  "follower_registered s \<Longrightarrow>
   follower_registered (fold (\<lambda>c. stopListeningAlong c host now) cs s)"
  by (induction cs arbitrary: s) (simp_all add: stop_follower_registered)

lemma fold_stop_member_follows:
  "member_follows s \<Longrightarrow> member_follows (fold (\<lambda>c. stopListeningAlong c host now) cs s)"
  by (induction cs arbitrary: s) (simp_all add: stop_member_follows)

lemma follower_registered_objs:
  "objs s' = objs s \<Longrightarrow> follower_registered s' = follower_registered s"
  by (simp add: follower_registered_def)

lemma member_follows_objs:
  "objs s' = objs s \<Longrightarrow> member_follows s' = member_follows s"
  by (simp add: member_follows_def)

lemma close_follower_registered:
  "follower_registered s \<Longrightarrow> follower_registered (handleClose c now s)"
  unfolding follower_registered_objs [OF handleClose_objs] close_listening_fold
  by (intro fold_stop_follower_registered) (simp add: stop_follower_registered)

lemma close_member_follows:
  "member_follows s \<Longrightarrow> member_follows (handleClose c now s)"
  unfolding member_follows_objs [OF handleClose_objs] close_listening_fold
  by (intro fold_stop_member_follows) (simp add: stop_member_follows)

lemma listen_follower_registered:
  "follower_registered s \<Longrightarrow> follower_registered (listenAlong a b now s)"
  by (auto simp: follower_registered_def listenAlong_def syncWith_def send_def dict_set_def
        Let_def split: option.splits)

lemma listen_member_follows:
  "member_follows s \<Longrightarrow>
   listeningWith (objs s a) = None \<or> listeningWith (objs s a) = Some b \<Longrightarrow>
   member_follows (listenAlong a b now s)"
  by (auto simp: member_follows_def listenAlong_def syncWith_def send_def dict_set_def Let_def
           split: option.splits if_splits)
     (metis option.inject)+

text \<open>
  C4, as the code has it. That a follower is in the set of the host it listens with is
  kept by \<^verbatim>\<open>listenAlong\<close> (also for a follower that already has another host), by
  \<^verbatim>\<open>stopListeningAlong\<close> and by the disconnect cleanup. That the two relations are
  mutual inverses is kept by \<^verbatim>\<open>stopListeningAlong\<close> and by the disconnect cleanup, and
  by \<^verbatim>\<open>listenAlong\<close> when the follower has no host or already listens with that host.
\<close>

theorem listening_relations_preserved:
  "(follower_registered s \<longrightarrow>
      follower_registered (listenAlong a b now s) \<and>
      follower_registered (stopListeningAlong a host now s) \<and>
      follower_registered (handleClose a now s))
 \<and> (mutual_inverses s \<longrightarrow>
      mutual_inverses (stopListeningAlong a host now s) \<and>
      mutual_inverses (handleClose a now s) \<and>
      (listeningWith (objs s a) = None \<or> listeningWith (objs s a) = Some b \<longrightarrow>
         mutual_inverses (listenAlong a b now s)))"
  by (simp add: mutual_inverses_def listen_follower_registered stop_follower_registered
        close_follower_registered stop_member_follows close_member_follows
        listen_member_follows)

theorem listening_relations_preserved_witness:
  "follower_registered following_a
   \<and> mutual_inverses following_a
   \<and> listeningWith (objs following_a ''c'') = Some ''a''
   \<and> follower_registered (listenAlong ''c'' ''a'' 2 following_a)
   \<and> follower_registered (stopListeningAlong ''c'' False 2 following_a)
   \<and> follower_registered (handleClose ''c'' 2 following_a)
   \<and> mutual_inverses (stopListeningAlong ''c'' False 2 following_a)
   \<and> mutual_inverses (handleClose ''c'' 2 following_a)
   \<and> mutual_inverses (listenAlong ''c'' ''a'' 2 following_a)"
proof -
  have m: "mutual_inverses following_a" by (rule following_a_mutual)
  then have f: "follower_registered following_a" by (simp add: mutual_inverses_def)
  have lw: "listeningWith (objs following_a ''c'') = Some ''a''"
    by (simp add: following_a_objs)
  from listening_relations_preserved [of following_a "''c''" "''a''" 2 False] m f lw
  show ?thesis by simp
qed

text \<open>
  C4 as stated fails for \<^verbatim>\<open>listenAlong\<close> on a follower that has another host: the
  relations are mutual inverses while \<open>c\<close> listens with \<open>a\<close>, and no longer after \<open>c\<close>
  listens along with \<open>b\<close>, since \<open>c\<close> stays in the set of \<open>a\<close>.
\<close>

theorem listenAlong_switch_counterexample:
  "mutual_inverses following_a
   \<and> listeningWith (objs following_a ''c'') = Some ''a''
   \<and> \<not> mutual_inverses (listenAlong ''c'' ''b'' 2 following_a)"
proof -
  have "\<not> mutual_inverses switched_to_b"
  proof
    assume "mutual_inverses switched_to_b"
    then have "member_follows switched_to_b" by (simp add: mutual_inverses_def)
    then have "''c'' \<in> set (listeningAlong (objs switched_to_b ''a'')) \<longrightarrow>
               listeningWith (objs switched_to_b ''c'') = Some ''a''"
      unfolding member_follows_def by blast
    then show False by (simp add: switched_to_b_objs)
  qed
  then show ?thesis
    by (simp add: following_a_mutual following_a_objs switched_to_b_def)
qed

section \<open>Closing a session that never authenticated\<close>

lemma stop_other_fields:
  "other_fields (objs (stopListeningAlong c host now s) x) = other_fields (objs s x)"
  by (simp add: stopListeningAlong_def send_def other_fields_def Let_def split: option.splits)

lemma fold_stop_other_fields:
  "other_fields (objs (fold (\<lambda>c. stopListeningAlong c host now) cs s) x) =
   other_fields (objs s x)"
  by (induction cs arbitrary: s) (simp_all add: stop_other_fields)

lemma fold_stop_keeps [simp]:
  "hasBot (fold (\<lambda>c. stopListeningAlong c host now) cs s) = hasBot s"
  "clients (fold (\<lambda>c. stopListeningAlong c host now) cs s) = clients s"
  "users (fold (\<lambda>c. stopListeningAlong c host now) cs s) = users s"
  "onlineUsers (fold (\<lambda>c. stopListeningAlong c host now) cs s) = onlineUsers s"
  "recentUsers (fold (\<lambda>c. stopListeningAlong c host now) cs s) = recentUsers s"
  "timers (fold (\<lambda>c. stopListeningAlong c host now) cs s) = timers s"
  "database (fold (\<lambda>c. stopListeningAlong c host now) cs s) = database s"
  "published (fold (\<lambda>c. stopListeningAlong c host now) cs s) = published s"
  by (induction cs arbitrary: s) simp_all

lemma close_listening_other_fields:
  "other_fields (objs (close_listening this now s) x) = other_fields (objs s x)"
  unfolding close_listening_fold by (simp add: fold_stop_other_fields stop_other_fields)

lemma close_listening_keeps [simp]:
  "hasBot (close_listening this now s) = hasBot s"
  "clients (close_listening this now s) = clients s"
  "users (close_listening this now s) = users s"
  "onlineUsers (close_listening this now s) = onlineUsers s"
  "recentUsers (close_listening this now s) = recentUsers s"
  "timers (close_listening this now s) = timers s"
  "database (close_listening this now s) = database s"
  "published (close_listening this now s) = published s"
  unfolding close_listening_fold by simp_all

lemma other_fields_reads:
  assumes "other_fields c' = other_fields c"
  shows "userId c' = userId c" and "listeningTo c' = listeningTo c"
    and "socialStatus c' = socialStatus c"
proof -
  have "userId (other_fields c') = userId (other_fields c)"
       "listeningTo (other_fields c') = listeningTo (other_fields c)"
       "socialStatus (other_fields c') = socialStatus (other_fields c)"
    using assms by simp_all
  then show "userId c' = userId c" and "listeningTo c' = listeningTo c"
    and "socialStatus c' = socialStatus c"
    by (simp_all add: other_fields_def)
qed

lemma close_listening_reads [simp]:
  "userId (objs (close_listening this now s) x) = userId (objs s x)"
  "listeningTo (objs (close_listening this now s) x) = listeningTo (objs s x)"
  "socialStatus (objs (close_listening this now s) x) = socialStatus (objs s x)"
  by (rule other_fields_reads [OF close_listening_other_fields])+








section \<open>Broadcast\<close>

lemma fold_send:
  "fold (\<lambda>c. send c payload now) cs s =
     s\<lparr>objs := \<lambda>x. (objs s x)\<lparr>sent := sent (objs s x) @
                                  replicate (count_list cs x) (payload, now)\<rparr>\<rparr>"
proof (induction cs arbitrary: s)
  case Nil
  show ?case by simp
next
  case (Cons c cs)
  let ?s1 = "send c payload now s"
  have "fold (\<lambda>c. send c payload now) (c # cs) s = fold (\<lambda>c. send c payload now) cs ?s1"
    by simp
  also have "\<dots> = ?s1\<lparr>objs := \<lambda>x. (objs ?s1 x)\<lparr>sent := sent (objs ?s1 x) @
                                  replicate (count_list cs x) (payload, now)\<rparr>\<rparr>"
    by (rule Cons.IH)
  also have "\<dots> = s\<lparr>objs := \<lambda>x. (objs s x)\<lparr>sent := sent (objs s x) @
                                  replicate (count_list (c # cs) x) (payload, now)\<rparr>\<rparr>"
    by (auto simp: send_def upd_def fun_eq_iff replicate_app_Cons_same)
  finally show ?case .
qed

text \<open>
  C8. \<^verbatim>\<open>broadcast\<close> for a user id without an entry in the User Index returns the
  state as it is (no send, and the model has no error to raise); for a user id with an
  entry, every session in the entry has the message appended to its output, once for
  each time the session is in the entry, and nothing else changes.
\<close>

theorem broadcast_fanout:
  "(users s uid = None \<longrightarrow> broadcast uid payload now s = s)
 \<and> (users s uid = Some cs \<longrightarrow>
      broadcast uid payload now s =
        s\<lparr>objs := \<lambda>x. (objs s x)\<lparr>sent := sent (objs s x) @
                                     replicate (count_list cs x) (payload, now)\<rparr>\<rparr>
    \<and> (\<forall>c\<in>set cs. (payload, now) \<in> set (sent (objs (broadcast uid payload now s) c))))"
  by (auto simp: broadcast_def fold_send count_list_0_iff)

theorem broadcast_fanout_witness:
  "users two_sessions ''V'' = None
   \<and> broadcast ''V'' (RecentsMessage []) 9 two_sessions = two_sessions
   \<and> users two_sessions ''U'' = Some [''a'', ''b'']
   \<and> sent (objs (broadcast ''U'' (RecentsMessage []) 9 two_sessions) ''a'') =
       [(GATEWAY_INIT, 0), (GATEWAY_PING 1000, 1000), (RecentsMessage [], 9)]
   \<and> sent (objs (broadcast ''U'' (RecentsMessage []) 9 two_sessions) ''b'') =
       [(GATEWAY_INIT, 0), (GATEWAY_PING 1000, 1000), (RecentsMessage [], 9)]"
proof -
  have n: "users two_sessions ''V'' = None" by (simp add: two_sessions_eq)
  have u: "users two_sessions ''U'' = Some [''a'', ''b'']" by (simp add: two_sessions_eq)
  from broadcast_fanout [of two_sessions "''V''" "RecentsMessage []" 9 "[]"] n
  have 1: "broadcast ''V'' (RecentsMessage []) 9 two_sessions = two_sessions" by simp
  from broadcast_fanout [of two_sessions "''U''" "RecentsMessage []" 9 "[''a'', ''b'']"] u
  have 2: "broadcast ''U'' (RecentsMessage []) 9 two_sessions =
        two_sessions\<lparr>objs := \<lambda>x. (objs two_sessions x)\<lparr>sent := sent (objs two_sessions x) @
            replicate (count_list [''a'', ''b''] x) (RecentsMessage [], 9)\<rparr>\<rparr>"
    by simp
  show ?thesis
    using n u 1 by (simp add: 2) (simp add: two_sessions_eq)
qed

section \<open>Presence debounce\<close>

lemma updatePresence_skip:
  "now - lastUpdate (objs s this) < 4000 \<Longrightarrow> updatePresence K this now s = s"
  by (simp add: updatePresence_def)

lemma updatePresence_run:
  assumes "\<not> now - lastUpdate (objs s this) < 4000"
  shows "lastUpdate (objs (updatePresence K this now s) this) = now"
    and "length (published (updatePresence K this now s)) \<le> Suc (length (published s))"
  using assms
  by (simp_all add: updatePresence_def publish_def Let_def split: option.splits)

lemma presence_events_skip_all:
  "\<forall>t\<in>set ts. t - lastUpdate (objs s this) < 4000 \<Longrightarrow> presence_events K this ts s = s"
  unfolding presence_events_def
  by (induction ts) (simp_all add: updatePresence_skip)

lemma presence_events_Cons:
  "presence_events K this (t # ts) s = presence_events K this ts (updatePresence K this t s)"
  by (simp add: presence_events_def)

lemma presence_events_window:
  "sorted ts \<Longrightarrow> \<forall>t\<in>set ts. t < hd ts + 4000 \<Longrightarrow>
   length (published (presence_events K this ts s)) \<le> Suc (length (published s))"
proof (induction ts)
  case Nil
  show ?case by (simp add: presence_events_def)
next
  case (Cons t ts)
  from Cons.prems have later: "\<forall>u\<in>set ts. t \<le> u \<and> u < t + 4000" by auto
  show ?case
  proof (cases "t - lastUpdate (objs s this) < 4000")
    case True
    have "\<forall>u\<in>set ts. u < hd ts + 4000"
    proof (cases ts)
      case Nil
      then show ?thesis by simp
    next
      case (Cons v vs)
      with later show ?thesis by auto
    qed
    with Cons.prems Cons.IH True show ?thesis
      by (simp add: presence_events_Cons updatePresence_skip)
  next
    case False
    let ?s1 = "updatePresence K this t s"
    from updatePresence_run [OF False]
    have lu: "lastUpdate (objs ?s1 this) = t"
      and len: "length (published ?s1) \<le> Suc (length (published s))" by auto
    from later lu have "\<forall>u\<in>set ts. u - lastUpdate (objs ?s1 this) < 4000" by auto
    then have "presence_events K this ts ?s1 = ?s1" by (rule presence_events_skip_all)
    with len show ?thesis by (simp add: presence_events_Cons)
  qed
qed

text \<open>
  C6. \<^verbatim>\<open>updatePresence\<close> invoked less than 4000 ms after the session's last push
  timestamp returns the state unchanged: it publishes nothing and queues nothing. So for
  the events of one session at non-decreasing clock readings that all lie within 4000 ms
  of the first, at most one call of the publisher results.
\<close>

theorem presence_debounce:
  "(now - lastUpdate (objs s this) < 4000 \<longrightarrow> updatePresence K this now s = s)
 \<and> (sorted ts \<and> (\<forall>t\<in>set ts. t < hd ts + 4000) \<longrightarrow>
      length (published (presence_events K this ts s)) \<le> Suc (length (published s)))"
  by (simp add: updatePresence_skip presence_events_window)

theorem presence_debounce_witness:
  "3000 - lastUpdate (objs two_sessions_playing ''a'') < 4000
   \<and> updatePresence K0 ''a'' 3000 two_sessions_playing = two_sessions_playing
   \<and> sorted [5000, 6000, 8999 :: int]
   \<and> (8999 :: int) < hd [5000, 6000, 8999] + 4000
   \<and> length (published (presence_events K0 ''a'' [5000, 6000, 8999] two_sessions_playing)) \<le>
       Suc (length (published two_sessions_playing))
   \<and> length (published (updatePresence K0 ''a'' 5000 two_sessions_playing)) = 1"
proof -
  have h1: "3000 - lastUpdate (objs two_sessions_playing ''a'') < 4000"
    by (simp add: two_sessions_playing_eq new_client_def)
  have h2: "sorted [5000, 6000, 8999 :: int]" by simp
  have h3: "\<forall>t\<in>set [5000, 6000, 8999 :: int]. t < hd [5000, 6000, 8999] + 4000" by simp
  have one: "length (published (updatePresence K0 ''a'' 5000 two_sessions_playing)) = 1"
    by (simp add: updatePresence_def two_sessions_playing_eq new_client_def upd_def
          getUser_def alice_def publish_def Let_def)
  from presence_debounce [of 3000 two_sessions_playing "''a''" K0 "[5000, 6000, 8999]"]
    h1 h2 h3 one
  show ?thesis by simp
qed

section \<open>The online and recent directories\<close>

lemma updatePresence_keeps [simp]:
  "users (updatePresence K this now s) = users s"
  "onlineUsers (updatePresence K this now s) = onlineUsers s"
  "recentUsers (updatePresence K this now s) = recentUsers s"
  "hasBot (updatePresence K this now s) = hasBot s"
  by (simp_all add: updatePresence_def publish_def Let_def split: option.splits)

lemma handshake_directories:
  assumes "getUserByToken tok (database s) = Some usr"
  shows "onlineUsers (run_timer K now (UserInit this tok bc pr) s) (u_userId usr) \<noteq> None"
    and "recentUsers (run_timer K now (UserInit this tok bc pr) s) (u_userId usr) = None"
  using assms by (simp_all add: asOnlineUser_def Let_def)

lemma close_directories_online:
  assumes "userId (objs s this) = Some uid" and "uid \<noteq> []" and "users s uid = Some cs"
  shows "onlineUsers (close_directories this now s) uid = None"
    and "users (close_directories this now s) uid =
           (if length cs < 2 then None else Some (splice_indexOf this cs))"
  using assms by (simp_all add: close_directories_def Let_def split: option.splits)

lemma close_directories_recent:
  assumes "userId (objs s this) = Some uid" and "uid \<noteq> []" and "users s uid = Some cs"
  shows "recentUsers (close_directories this now s) =
           (case asOfflineUser (objs s this) (getUser (Some uid) (database s)) now of
              None \<Rightarrow> recentUsers s
            | Some off \<Rightarrow>
                if recentUsers s uid = None \<and> listeningTo (objs s this) \<noteq> None
                then (recentUsers s)(uid \<mapsto> off) else recentUsers s)"
  using assms
  by (auto simp: close_directories_def asOfflineUser_def Let_def split: option.splits)

lemma handleClose_directories:
  "handleClose this now s =
     close_directories this now
       (publish (PUserId (userId (objs s this))) None (close_listening this now s))"
  by (simp add: handleClose_def Let_def)

lemma publish_fields [simp]:
  "objs (publish tgt p s) = objs s"
  "users (publish tgt p s) = users s"
  "onlineUsers (publish tgt p s) = onlineUsers s"
  "recentUsers (publish tgt p s) = recentUsers s"
  "database (publish tgt p s) = database s"
  "clients (publish tgt p s) = clients s"
  "hasBot (publish tgt p s) = hasBot s"
  by (simp_all add: publish_def)

text \<open>
  C2, as the code has it. A successful handshake of a user creates the user's
  \<open>OnlineUser\<close> entry. The close of a session of the user, when the User Index has an
  entry for the user, removes the \<open>OnlineUser\<close> entry whether or not other sessions of
  the user remain: the User Index entry is deleted when it held fewer than two sessions
  and otherwise keeps the other sessions.
\<close>

theorem online_entry_lifecycle:
  "(getUserByToken tok (database s) = Some usr \<longrightarrow>
      onlineUsers (run_timer K now (UserInit this tok bc pr) s) (u_userId usr) \<noteq> None)
 \<and> (userId (objs s this) = Some uid \<and> uid \<noteq> [] \<and> users s uid = Some cs \<longrightarrow>
      onlineUsers (handleClose this now s) uid = None
    \<and> users (handleClose this now s) uid =
        (if length cs < 2 then None else Some (splice_indexOf this cs)))"
proof -
  have "onlineUsers (handleClose this now s) uid = None
      \<and> users (handleClose this now s) uid =
        (if length cs < 2 then None else Some (splice_indexOf this cs))"
    if "userId (objs s this) = Some uid" "uid \<noteq> []" "users s uid = Some cs"
    unfolding handleClose_directories
    using that by (intro conjI close_directories_online) simp_all
  with handshake_directories(1) [of tok s usr K now this bc pr] show ?thesis
    by blast
qed

theorem online_entry_lifecycle_witness:
  "getUserByToken ''T1'' (database (connected2 [alice])) = Some alice
   \<and> onlineUsers (run_timer K0 2000 (UserInit ''a'' ''T1'' None None) (connected2 [alice])) ''U''
       \<noteq> None
   \<and> userId (objs two_sessions ''a'') = Some ''U''
   \<and> users two_sessions ''U'' = Some [''a'', ''b'']
   \<and> onlineUsers (handleClose ''a'' 3000 two_sessions) ''U'' = None
   \<and> users (handleClose ''a'' 3000 two_sessions) ''U'' = Some [''b'']"
proof -
  have t: "getUserByToken ''T1'' (database (connected2 [alice])) = Some alice"
    by (simp add: connected2_eq getUserByToken_def alice_def)
  have u: "userId (objs two_sessions ''a'') = Some ''U''"
    by (simp add: two_sessions_eq)
  have i: "users two_sessions ''U'' = Some [''a'', ''b'']"
    by (simp add: two_sessions_eq)
  have ne: "''U'' \<noteq> []" by simp
  have sp: "splice_indexOf ''a'' [''a'', ''b''] = [''b'']"
    by (simp add: splice_indexOf_def splice1_def)
  have al: "u_userId alice = ''U''" by (simp add: alice_def)
  from online_entry_lifecycle [where tok = "''T1''" and s = "connected2 [alice]"
      and usr = alice and K = K0 and now = 2000 and this = "''a''" and bc = None
      and pr = None] t
  have 1: "onlineUsers (run_timer K0 2000 (UserInit ''a'' ''T1'' None None)
             (connected2 [alice])) ''U'' \<noteq> None"
    by (simp add: al)
  from online_entry_lifecycle [where s = two_sessions and this = "''a''" and uid = "''U''"
      and cs = "[''a'', ''b'']" and now = 3000] u i ne
  have 2: "onlineUsers (handleClose ''a'' 3000 two_sessions) ''U'' = None
      \<and> users (handleClose ''a'' 3000 two_sessions) ''U'' = Some [''b'']"
    by (simp add: sp)
  from t u i 1 2 show ?thesis by simp
qed

text \<open>
  C2 as stated fails: with two Active sessions of one user, the close of one removes
  the user's \<open>OnlineUser\<close> entry while the other session is still registered,
  authenticated and in the User Index.
\<close>

theorem online_entry_removed_counterexample:
  "onlineUsers two_sessions ''U'' \<noteq> None
   \<and> has_active_session (handleClose ''a'' 3000 two_sessions) ''U''
   \<and> users (handleClose ''a'' 3000 two_sessions) ''U'' = Some [''b'']
   \<and> onlineUsers (handleClose ''a'' 3000 two_sessions) ''U'' = None"
  by (simp add: has_active_session_def handleClose_def close_listening_def
        close_directories_def publish_def splice_indexOf_def splice1_def Let_def
        two_sessions_eq new_client_def)

text \<open>
  C5, as the code has it. When a session of a user closes and the User Index has an
  entry for the user, a \<open>RecentUser\<close> entry is created exactly when none exists, the
  closing session has a current track and the User Directory has the user, whatever the
  number of the user's other sessions; the close removes the user's \<open>OnlineUser\<close>
  entry. A successful handshake of the user removes the \<open>RecentUser\<close> entry and creates
  the \<open>OnlineUser\<close> entry. So right after either operation the user is not in both
  directories.
\<close>

theorem recent_entry_lifecycle:
  "(userId (objs s this) = Some uid \<and> uid \<noteq> [] \<and> users s uid = Some cs \<longrightarrow>
      recentUsers (handleClose this now s) =
        (case asOfflineUser (objs s this) (getUser (Some uid) (database s)) now of
           None \<Rightarrow> recentUsers s
         | Some off \<Rightarrow>
             if recentUsers s uid = None \<and> listeningTo (objs s this) \<noteq> None
             then (recentUsers s)(uid \<mapsto> off) else recentUsers s)
    \<and> onlineUsers (handleClose this now s) uid = None)
 \<and> (getUserByToken tok (database s) = Some usr \<longrightarrow>
      recentUsers (run_timer K now (UserInit this tok bc pr) s) (u_userId usr) = None
    \<and> onlineUsers (run_timer K now (UserInit this tok bc pr) s) (u_userId usr) \<noteq> None)"
proof -
  have "recentUsers (handleClose this now s) =
        (case asOfflineUser (objs s this) (getUser (Some uid) (database s)) now of
           None \<Rightarrow> recentUsers s
         | Some off \<Rightarrow>
             if recentUsers s uid = None \<and> listeningTo (objs s this) \<noteq> None
             then (recentUsers s)(uid \<mapsto> off) else recentUsers s)
    \<and> onlineUsers (handleClose this now s) uid = None"
    if h: "userId (objs s this) = Some uid" "uid \<noteq> []" "users s uid = Some cs"
  proof -
    let ?s2 = "publish (PUserId (userId (objs s this))) None (close_listening this now s)"
    have pre: "userId (objs ?s2 this) = Some uid" "users ?s2 uid = Some cs"
      using h by simp_all
    have eqs: "recentUsers ?s2 = recentUsers s" "database ?s2 = database s"
      "listeningTo (objs ?s2 this) = listeningTo (objs s this)"
      "asOfflineUser (objs ?s2 this) = asOfflineUser (objs s this)"
      by (simp_all add: asOfflineUser_def fun_eq_iff split: option.splits)
    have "recentUsers (handleClose this now s) =
        (case asOfflineUser (objs ?s2 this) (getUser (Some uid) (database ?s2)) now of
           None \<Rightarrow> recentUsers ?s2
         | Some off \<Rightarrow>
             if recentUsers ?s2 uid = None \<and> listeningTo (objs ?s2 this) \<noteq> None
             then (recentUsers ?s2)(uid \<mapsto> off) else recentUsers ?s2)"
      unfolding handleClose_directories
      by (rule close_directories_recent [OF pre(1) h(2) pre(2)])
    then have r: "recentUsers (handleClose this now s) =
        (case asOfflineUser (objs s this) (getUser (Some uid) (database s)) now of
           None \<Rightarrow> recentUsers s
         | Some off \<Rightarrow>
             if recentUsers s uid = None \<and> listeningTo (objs s this) \<noteq> None
             then (recentUsers s)(uid \<mapsto> off) else recentUsers s)"
      unfolding eqs .
    have "onlineUsers (handleClose this now s) uid = None"
      unfolding handleClose_directories
      by (rule close_directories_online(1) [OF pre(1) h(2) pre(2)])
    with r show ?thesis by (rule conjI)
  qed
  with handshake_directories [of tok s usr K now this bc pr] show ?thesis
    by blast
qed

lemma after_close_playing:
  "recentUsers (handleClose ''a'' 3000 two_sessions_playing) =
     [''U'' \<mapsto> \<lparr>off_socialStatus = ''Everyone'', off_username = ''alice'',
        off_discriminator = ''1'', off_userId = ''U'', off_avatar = ''av'',
        lastSeen = 3000, lastListeningTo = Some song\<rparr>]"
  "onlineUsers (handleClose ''a'' 3000 two_sessions_playing) = Map.empty"
  "users (handleClose ''a'' 3000 two_sessions_playing) = [''U'' \<mapsto> [''b'']]"
  "database (handleClose ''a'' 3000 two_sessions_playing) = [alice]"
  "clients (handleClose ''a'' 3000 two_sessions_playing) = {''b''}"
  "objs (handleClose ''a'' 3000 two_sessions_playing) ''b'' = objs two_sessions_playing ''b''"
  by (simp_all add: handleClose_def close_listening_def close_directories_def publish_def
        splice_indexOf_def splice1_def asOfflineUser_def getUser_def alice_def Let_def
        two_sessions_playing_eq new_client_def)

theorem recent_entry_lifecycle_witness:
  "userId (objs two_sessions_playing ''a'') = Some ''U''
   \<and> users two_sessions_playing ''U'' = Some [''a'', ''b'']
   \<and> recentUsers (handleClose ''a'' 3000 two_sessions_playing) ''U'' =
       Some \<lparr>off_socialStatus = ''Everyone'', off_username = ''alice'',
         off_discriminator = ''1'', off_userId = ''U'', off_avatar = ''av'',
         lastSeen = 3000, lastListeningTo = Some song\<rparr>
   \<and> onlineUsers (handleClose ''a'' 3000 two_sessions_playing) ''U'' = None
   \<and> getUserByToken ''T1'' (database (handleClose ''a'' 3000 two_sessions_playing)) = Some alice
   \<and> recentUsers (run_timer K0 4000 (UserInit ''c'' ''T1'' None None)
        (handleClose ''a'' 3000 two_sessions_playing)) ''U'' = None
   \<and> onlineUsers (run_timer K0 4000 (UserInit ''c'' ''T1'' None None)
        (handleClose ''a'' 3000 two_sessions_playing)) ''U'' \<noteq> None"
proof -
  have u: "userId (objs two_sessions_playing ''a'') = Some ''U''"
    by (simp add: two_sessions_playing_eq)
  have i: "users two_sessions_playing ''U'' = Some [''a'', ''b'']"
    by (simp add: two_sessions_playing_eq)
  have ne: "''U'' \<noteq> []" by simp
  have t: "getUserByToken ''T1'' (database (handleClose ''a'' 3000 two_sessions_playing)) =
             Some alice"
    by (simp add: after_close_playing getUserByToken_def alice_def)
  have al: "u_userId alice = ''U''" by (simp add: alice_def)
  from recent_entry_lifecycle [where s = two_sessions_playing and this = "''a''"
      and uid = "''U''" and cs = "[''a'', ''b'']" and now = 3000] u i ne
  have 1: "onlineUsers (handleClose ''a'' 3000 two_sessions_playing) ''U'' = None"
    by simp
  from recent_entry_lifecycle [where s = "handleClose ''a'' 3000 two_sessions_playing"
      and tok = "''T1''" and usr = alice and K = K0 and now = 4000 and this = "''c''"
      and bc = None and pr = None] t
  have 2: "recentUsers (run_timer K0 4000 (UserInit ''c'' ''T1'' None None)
        (handleClose ''a'' 3000 two_sessions_playing)) ''U'' = None
   \<and> onlineUsers (run_timer K0 4000 (UserInit ''c'' ''T1'' None None)
        (handleClose ''a'' 3000 two_sessions_playing)) ''U'' \<noteq> None"
    by (simp add: al)
  from u i t 1 2 show ?thesis by (simp add: after_close_playing)
qed

lemma updateOnlineStatus_keeps_recent [simp]:
  "recentUsers (updateOnlineStatus this sync s) = recentUsers s"
  by (simp add: updateOnlineStatus_def Let_def split: option.splits)

lemma updateOnlineStatus_creates:
  assumes "userId (objs s this) = Some uid" and "getUser (Some uid) (database s) = Some usr"
  shows "onlineUsers (updateOnlineStatus this sync s) uid \<noteq> None"
  using assms
  by (simp add: updateOnlineStatus_def key_of_def asOnlineUser_def Let_def
        split: option.splits)

text \<open>
  C5 as stated fails: with two Active sessions of one user, the close of the one that
  plays a track creates the \<open>RecentUser\<close> entry although the user goes from two Active
  sessions to one; when the remaining session then updates its online status, the user
  is in the online and in the recent directory at once.
\<close>

theorem recent_entry_created_counterexample:
  "users two_sessions_playing ''U'' = Some [''a'', ''b'']
   \<and> recentUsers two_sessions_playing ''U'' = None
   \<and> users (handleClose ''a'' 3000 two_sessions_playing) ''U'' = Some [''b'']
   \<and> has_active_session (handleClose ''a'' 3000 two_sessions_playing) ''U''
   \<and> recentUsers (handleClose ''a'' 3000 two_sessions_playing) ''U'' \<noteq> None
   \<and> onlineUsers (updateOnlineStatus ''b'' None
        (handleClose ''a'' 3000 two_sessions_playing)) ''U'' \<noteq> None
   \<and> recentUsers (updateOnlineStatus ''b'' None
        (handleClose ''a'' 3000 two_sessions_playing)) ''U'' \<noteq> None"
proof -
  let ?s = "handleClose ''a'' 3000 two_sessions_playing"
  have b: "userId (objs ?s ''b'') = Some ''U''"
    by (simp add: after_close_playing) (simp add: two_sessions_playing_eq)
  have g: "getUser (Some ''U'') (database ?s) = Some alice"
    by (simp add: after_close_playing getUser_def alice_def)
  have act: "has_active_session ?s ''U''"
    using b by (simp add: has_active_session_def after_close_playing)
  have rec: "recentUsers ?s ''U'' \<noteq> None" and idx: "users ?s ''U'' = Some [''b'']"
    by (simp_all add: after_close_playing)
  have before: "users two_sessions_playing ''U'' = Some [''a'', ''b'']"
    "recentUsers two_sessions_playing ''U'' = None"
    by (simp_all add: two_sessions_playing_eq)
  from updateOnlineStatus_creates [OF b g] act rec idx before show ?thesis
    by simp
qed

section \<open>The bot identity\<close>

lemma handleClose_keeps_hasBot: "hasBot (handleClose this now s) = hasBot s"
  by (simp add: handleClose_def close_directories_def Let_def split: option.splits)

lemma initialized_bot_gate:
  assumes "timers (snd (initialized K this data now s)) = timers s @ [BotInit c]"
  shows "\<not> hasBot s \<and> m_token data = DISCORD_TOKEN K \<and> m_type data = Some ''initialize''"
  using assms
  by (auto simp: initialized_def ping_def send_def Let_def split: if_splits)

text \<open>
  C7 fails on the code. The flag is read when the handshake frame is handled and is set
  only by the callback deferred for 1000 ms: two connections that both send the secret
  before either callback runs both become the bot.
\<close>

theorem two_bots_both_claim:
  "userId (objs two_bots ''a'') = Some ''bot''
   \<and> userId (objs two_bots ''b'') = Some ''bot''
   \<and> hasBot two_bots"
  by (simp add: two_bots_eq)

section \<open>Recently played\<close>

lemma findIndex_None: "findIndex p xs = None \<Longrightarrow> \<forall>x\<in>set xs. \<not> p x"
  by (induction xs) (auto split: if_splits)

lemma findIndex_splice1:
  "findIndex p xs = Some i \<Longrightarrow> length (filter p xs) \<le> 1 \<Longrightarrow>
   \<forall>x\<in>set (splice1 i xs). \<not> p x"
proof (induction xs arbitrary: i)
  case Nil
  then show ?case by simp
next
  case (Cons x xs)
  show ?case
  proof (cases "p x")
    case True
    with Cons.prems have "i = 0" and "filter p xs = []" by auto
    then show ?thesis by (auto simp: splice1_def filter_empty_conv)
  next
    case False
    with Cons.prems obtain j where j: "findIndex p xs = Some j" "i = Suc j" by auto
    with Cons.prems False have "\<forall>y\<in>set (splice1 j xs). \<not> p y"
      by (intro Cons.IH) auto
    with False j show ?thesis by (auto simp: splice1_def)
  qed
qed

lemma distinct_map_filter_le1:
  "distinct (map f xs) \<Longrightarrow> length (filter (\<lambda>x. f x = a) xs) \<le> 1"
proof (induction xs)
  case Nil
  show ?case by simp
next
  case (Cons x xs)
  show ?case
  proof (cases "f x = a")
    case True
    with Cons.prems have "\<forall>y\<in>set xs. f y \<noteq> a" by (auto simp: image_iff)
    then have "filter (\<lambda>x. f x = a) xs = []" by (simp add: filter_empty_conv)
    with True show ?thesis by simp
  next
    case False
    with Cons show ?thesis by simp
  qed
qed

lemma splice1_distinct:
  assumes "distinct (map f xs)"
  shows "distinct (map f (splice1 i xs))"
proof -
  let ?ys = "map f xs"
  have split: "?ys = take i ?ys @ drop i ?ys" by simp
  from assms have "distinct (take i ?ys @ drop i ?ys)" by simp
  then have disj: "set (take i ?ys) \<inter> set (drop i ?ys) = {}" by (simp only: distinct_append)
  have "set (drop (Suc i) ?ys) \<subseteq> set (drop i ?ys)"
    by (rule set_drop_subset_set_drop) simp
  with disj have "set (take i ?ys) \<inter> set (drop (Suc i) ?ys) = {}" by blast
  moreover from assms have "distinct (take i ?ys)" "distinct (drop (Suc i) ?ys)"
    by (simp_all add: distinct_take distinct_drop)
  ultimately have "distinct (take i ?ys @ drop (Suc i) ?ys)" by simp
  then show ?thesis by (simp add: splice1_def take_map drop_map)
qed

text \<open>What the list part leaves: the track in front, at most nine entries.\<close>

lemma recents_step_shape:
  "recents_step t old \<noteq> []" "recents_step t old ! 0 = t" "length (recents_step t old) \<le> 9"
  by (simp_all add: recents_step_def Let_def)

text \<open>
  A stored list with pairwise different ids stays so, and has the id of the new track
  at position 0 only.
\<close>

lemma recents_step_distinct:
  assumes "distinct (map id_of old)"
  shows "distinct (map id_of (recents_step t old))"
    and "\<forall>i. 0 < i \<and> i < length (recents_step t old) \<longrightarrow>
             id_of (recents_step t old ! i) \<noteq> id_of t"
proof -
  define removed where
    "removed = (case findIndex (\<lambda>x. id_of x = id_of t) old of
                  None \<Rightarrow> old | Some i \<Rightarrow> splice1 i old)"
  have r: "recents_step t old = t # take 8 removed"
    unfolding recents_step_def removed_def Let_def by simp
  have few: "length (filter (\<lambda>x. id_of x = id_of t) old) \<le> 1"
    using assms by (rule distinct_map_filter_le1)
  have clean: "\<forall>x\<in>set removed. id_of x \<noteq> id_of t"
    and dist: "distinct (map id_of removed)"
  proof -
    show "\<forall>x\<in>set removed. id_of x \<noteq> id_of t"
    proof (cases "findIndex (\<lambda>x. id_of x = id_of t) old")
      case None
      then have "removed = old" unfolding removed_def by simp
      then show ?thesis using findIndex_None [OF None] by blast
    next
      case (Some k)
      then have "removed = splice1 k old" unfolding removed_def by simp
      then show ?thesis using findIndex_splice1 [OF Some few] by blast
    qed
    show "distinct (map id_of removed)"
    proof (cases "findIndex (\<lambda>x. id_of x = id_of t) old")
      case None
      then have "removed = old" unfolding removed_def by simp
      with assms show ?thesis by simp
    next
      case (Some k)
      then have "removed = splice1 k old" unfolding removed_def by simp
      with splice1_distinct [OF assms, of k] show ?thesis by simp
    qed
  qed
  have sub: "set (take 8 removed) \<subseteq> set removed" by (rule set_take_subset)
  from dist have "distinct (take 8 (map id_of removed))" by (rule distinct_take)
  then have "distinct (map id_of (take 8 removed))" by (simp add: take_map)
  moreover from clean sub have "id_of t \<notin> set (map id_of (take 8 removed))" by auto
  ultimately show "distinct (map id_of (recents_step t old))"
    unfolding r by simp
  show "\<forall>i. 0 < i \<and> i < length (recents_step t old) \<longrightarrow>
             id_of (recents_step t old ! i) \<noteq> id_of t"
  proof (intro allI impI)
    fix i
    assume i: "0 < i \<and> i < length (recents_step t old)"
    then obtain j where j: "i = Suc j" by (cases i) simp_all
    with i have "j < length (take 8 removed)" unfolding r by simp
    then have "take 8 removed ! j \<in> set (take 8 removed)" by (rule nth_mem)
    with sub clean have "id_of (take 8 removed ! j) \<noteq> id_of t" by blast
    then show "id_of (recents_step t old ! i) \<noteq> id_of t" unfolding r j by simp
  qed
qed

text \<open>
  The list built from an empty one by any number of calls has pairwise different ids:
  the stored list is written by \<^verbatim>\<open>addRecentlyPlayed\<close> alone.
\<close>

lemma played_distinct: "distinct (map id_of (played ts))"
  unfolding played_def
  by (induction ts) (simp_all add: recents_step_distinct(1))

lemma getUser_updateUser:
  assumes "getUser (Some uid) db = Some usr" and "u_userId usr' = u_userId usr"
  shows "getUser (Some uid) (updateUser usr' db) = Some usr'"
proof -
  from assms(1) have "u_userId usr = uid"
    by (auto simp: getUser_def find_Some_iff)
  with assms show ?thesis
    unfolding getUser_def updateUser_def
    by (induction db) (auto split: if_splits)
qed

lemma broadcast_keeps_database [simp]:
  "database (broadcast uid payload now s) = database s"
  by (simp add: broadcast_def fold_send split: option.splits)

text \<open>
  C10. The stored list has pairwise different ids (it is empty at first, and
  \<^verbatim>\<open>addRecentlyPlayed\<close>, its only writer, keeps it so). After \<^verbatim>\<open>addRecentlyPlayed(track)\<close>
  completes for a session of a user that the directory has, the stored list has the
  track at position 0, no other entry with the track's id, at most 9 entries and again
  pairwise different ids, and a \<^verbatim>\<open>recents\<close> frame with that list is appended to the
  output of every session in the user's User Index entry.
\<close>

theorem addRecentlyPlayed_effect:
  assumes "userId (objs s this) = Some uid"
      and "getUser (Some uid) (database s) = Some usr"
      and "distinct (map id_of (case recentlyPlayed usr of None \<Rightarrow> [] | Some l \<Rightarrow> l))"
  shows "addRecentlyPlayed this t now s =
           Inr (broadcast uid (RecentsMessage (recents_of t usr)) now
                  (s\<lparr>database := updateUser (usr\<lparr>recentlyPlayed := Some (recents_of t usr)\<rparr>)
                                   (database s)\<rparr>))
       \<and> map_option recentlyPlayed
           (getUser (Some uid) (database (projr (addRecentlyPlayed this t now s)))) =
           Some (Some (recents_of t usr))
       \<and> recents_of t usr \<noteq> [] \<and> recents_of t usr ! 0 = t
       \<and> length (recents_of t usr) \<le> 9
       \<and> (\<forall>i. 0 < i \<and> i < length (recents_of t usr) \<longrightarrow>
                id_of (recents_of t usr ! i) \<noteq> id_of t)
       \<and> distinct (map id_of (recents_of t usr))
       \<and> (\<forall>cs. users s uid = Some cs \<longrightarrow>
            (\<forall>c\<in>set cs. sent (objs (projr (addRecentlyPlayed this t now s)) c) =
               sent (objs s c) @
                 replicate (count_list cs c) (RecentsMessage (recents_of t usr), now)))"
proof -
  let ?l = "recents_of t usr"
  let ?s1 = "s\<lparr>database := updateUser (usr\<lparr>recentlyPlayed := Some ?l\<rparr>) (database s)\<rparr>"
  have run: "addRecentlyPlayed this t now s = Inr (broadcast uid (RecentsMessage ?l) now ?s1)"
    using assms(1,2) by (simp add: addRecentlyPlayed_def key_of_def Let_def)
  have stored: "getUser (Some uid) (database (broadcast uid (RecentsMessage ?l) now ?s1)) =
                  Some (usr\<lparr>recentlyPlayed := Some ?l\<rparr>)"
    using assms(2) by (simp add: getUser_updateUser)
  have fan: "sent (objs (broadcast uid (RecentsMessage ?l) now ?s1) c) =
               sent (objs s c) @ replicate (count_list cs c) (RecentsMessage ?l, now)"
    if "users s uid = Some cs" for cs c
    using that by (simp add: broadcast_def fold_send)
  have sel: "projr (addRecentlyPlayed this t now s) =
               broadcast uid (RecentsMessage ?l) now ?s1"
    by (simp add: run)
  have c2: "map_option recentlyPlayed
              (getUser (Some uid) (database (projr (addRecentlyPlayed this t now s)))) =
            Some (Some ?l)"
    unfolding sel stored by simp
  have shape: "?l \<noteq> []" "?l ! 0 = t" "length ?l \<le> 9"
    unfolding recents_of_def by (rule recents_step_shape)+
  have c4: "\<forall>i. 0 < i \<and> i < length ?l \<longrightarrow> id_of (?l ! i) \<noteq> id_of t"
    and c6: "distinct (map id_of ?l)"
    unfolding recents_of_def by (rule recents_step_distinct [OF assms(3)])+
  have c5: "\<forall>cs. users s uid = Some cs \<longrightarrow>
            (\<forall>c\<in>set cs. sent (objs (projr (addRecentlyPlayed this t now s)) c) =
               sent (objs s c) @ replicate (count_list cs c) (RecentsMessage ?l, now))"
    unfolding sel using fan by blast
  from run c2 shape c4 c6 c5 show ?thesis
    by (intro conjI)
qed

theorem addRecentlyPlayed_effect_witness:
  "userId (objs session_played ''a'') = Some ''U''
   \<and> getUser (Some ''U'') (database session_played) = Some alice_played
   \<and> recentlyPlayed alice_played = Some (played [Some song2, Some song])
   \<and> played [Some song2, Some song] = [Some song2, Some song]
   \<and> distinct (map id_of [Some song2, Some song])
   \<and> recents_of (Some song) alice_played = [Some song, Some song2]
   \<and> id_of (recents_of (Some song) alice_played ! 1) \<noteq> id_of (Some song)
   \<and> map_option recentlyPlayed
       (getUser (Some ''U'')
          (database (projr (addRecentlyPlayed ''a'' (Some song) 3000 session_played)))) =
       Some (Some [Some song, Some song2])
   \<and> users session_played ''U'' = Some [''a'']
   \<and> sent (objs (projr (addRecentlyPlayed ''a'' (Some song) 3000 session_played)) ''a'') =
       [(GATEWAY_INIT, 0), (GATEWAY_PING 1000, 1000),
        (RecentsMessage [Some song, Some song2], 3000)]"
proof -
  have u: "userId (objs session_played ''a'') = Some ''U''"
    by (simp add: session_played_eq)
  have g: "getUser (Some ''U'') (database session_played) = Some alice_played"
    by (simp add: session_played_eq getUser_def alice_played_def alice_def)
  have l: "recentlyPlayed alice_played = Some [Some song2, Some song]"
    by (simp add: alice_played_def)
  have p: "played [Some song2, Some song] = [Some song2, Some song]"
    by (simp add: played_def recents_step_def id_of_def song_def song2_def Let_def)
  have d: "distinct (map id_of [Some song2, Some song])"
    by (simp add: id_of_def song_def song2_def)
  have d': "distinct (map id_of (case recentlyPlayed alice_played of
                                   None \<Rightarrow> [] | Some l \<Rightarrow> l))"
    unfolding l using d by simp
  have r: "recents_of (Some song) alice_played = [Some song, Some song2]"
    by (simp add: recents_of_def recents_step_def l id_of_def song_def song2_def splice1_def
          Let_def)
  have i: "users session_played ''U'' = Some [''a'']" by (simp add: session_played_eq)
  have b: "sent (objs session_played ''a'') = [(GATEWAY_INIT, 0), (GATEWAY_PING 1000, 1000)]"
    by (simp add: session_played_eq new_client_def)
  note t = addRecentlyPlayed_effect [OF u g d', of "Some song" 3000]
  from t have 1: "map_option recentlyPlayed
       (getUser (Some ''U'')
          (database (projr (addRecentlyPlayed ''a'' (Some song) 3000 session_played)))) =
       Some (Some [Some song, Some song2])"
    unfolding r by blast
  from t have "\<forall>i. 0 < i \<and> i < length (recents_of (Some song) alice_played) \<longrightarrow>
                id_of (recents_of (Some song) alice_played ! i) \<noteq> id_of (Some song)"
    by blast
  then have "0 < (1 :: nat) \<and> 1 < length (recents_of (Some song) alice_played) \<longrightarrow>
                id_of (recents_of (Some song) alice_played ! 1) \<noteq> id_of (Some song)"
    by blast
  then have 2: "id_of (recents_of (Some song) alice_played ! 1) \<noteq> id_of (Some song)"
    by (simp add: r)
  from t have "\<forall>cs. users session_played ''U'' = Some cs \<longrightarrow>
            (\<forall>c\<in>set cs.
               sent (objs (projr (addRecentlyPlayed ''a'' (Some song) 3000 session_played)) c) =
               sent (objs session_played c) @
                 replicate (count_list cs c)
                   (RecentsMessage (recents_of (Some song) alice_played), 3000))"
    by blast
  with i have "\<forall>c\<in>set [''a''].
               sent (objs (projr (addRecentlyPlayed ''a'' (Some song) 3000 session_played)) c) =
               sent (objs session_played c) @
                 replicate (count_list [''a''] c)
                   (RecentsMessage (recents_of (Some song) alice_played), 3000)"
    by blast
  then have "sent (objs (projr (addRecentlyPlayed ''a'' (Some song) 3000 session_played))
        ''a'') = sent (objs session_played ''a'') @
          replicate (count_list [''a''] ''a'') (RecentsMessage [Some song, Some song2], 3000)"
    unfolding r by simp
  then have 3: "sent (objs (projr (addRecentlyPlayed ''a'' (Some song) 3000 session_played))
        ''a'') = [(GATEWAY_INIT, 0), (GATEWAY_PING 1000, 1000),
        (RecentsMessage [Some song, Some song2], 3000)]"
    unfolding b by simp
  have l': "recentlyPlayed alice_played = Some (played [Some song2, Some song])"
    unfolding p by (rule l)
  from u g l' p d r 2 1 i 3 show ?thesis by (intro conjI)
qed

end
